theory Spec2Isabelle
  imports Main
begin

section \<open>The relay server (server/index.js)\<close>

text \<open>
  The server keeps one module-level collection, \<^verbatim>\<open>const sseClients = new Set()\<close>, of the
  open response objects of \<^verbatim>\<open>GET /events\<close>. A response object is identified by a handle
  (a natural number); every request gets a new one, as every request gets a new
  \<^verbatim>\<open>res\<close> object from the HTTP layer. A JavaScript \<^verbatim>\<open>Set\<close> iterates in insertion
  order and holds no element twice, so it is a list of handles: \<^verbatim>\<open>add\<close> appends a handle
  that is not yet there, \<^verbatim>\<open>delete\<close> removes it, and both are silent no-ops otherwise.
\<close>

definition set_add :: "nat \<Rightarrow> nat list \<Rightarrow> nat list" where
  "set_add x xs = (if x \<in> set xs then xs else xs @ [x])"

definition set_delete :: "nat \<Rightarrow> nat list \<Rightarrow> nat list" where
  "set_delete x xs = removeAll x xs"

text \<open>
  What the handlers print with \<^verbatim>\<open>console.log\<close> and \<^verbatim>\<open>console.error\<close>: the message text
  and, where the source passes one, the JavaScript value printed after it (the type
  \<open>'v\<close> of the values the upstream client hands to the callbacks: messages and errors).
\<close>

datatype 'v console_line =
    Log string
  | Log_val string 'v
  | Error string
  | Error_val string 'v

text \<open>
  The calls the program makes on its collaborators (the Salesforce connection, the
  streaming client, the HTTP listener), in the order it makes them.
  \<^verbatim>\<open>Create_client channel replayId\<close> is
  \<^verbatim>\<open>conn.streaming.createClient([new StreamingExtension.Replay(channel, replayId)])\<close>.
\<close>

datatype call =
    Login string string string
  | Create_client string int
  | Subscribe string
  | On_transport_failure
  | Listen string

text \<open>
  The state of the process.
  \<^item> \<open>sseClients\<close>: the set of line 31.
  \<^item> \<open>headers\<close>, \<open>flushed\<close>: the response headers set on a response and whether
    \<^verbatim>\<open>flushHeaders\<close> was called on it.
  \<^item> \<open>written\<close>: the chunks passed to \<^verbatim>\<open>res.write\<close> of each response, oldest first.
    The source never looks at what \<^verbatim>\<open>res.write\<close> returns and never waits for a drain,
    so every chunk written is buffered for the response whatever its transport does.
  \<^item> \<open>pings\<close>: the running \<^verbatim>\<open>setInterval\<close> timers, by the response they write to, with
    their period in milliseconds.
  \<^item> \<open>nextRes\<close>: the handle the next request's response object gets.
  \<^item> \<open>console\<close>: the lines printed.
  \<^item> \<open>calls\<close>: the calls made on the collaborators.
  \<^item> \<open>exited\<close>: the code \<^verbatim>\<open>process.exit\<close> was called with, if it was.
\<close>

record 'v server =
  sseClients :: "nat list"
  headers :: "nat \<Rightarrow> (string \<times> string) list"
  flushed :: "nat \<Rightarrow> bool"
  written :: "nat \<Rightarrow> string list"
  pings :: "nat \<Rightarrow> nat option"
  nextRes :: nat
  console :: "'v console_line list"
  calls :: "call list"
  exited :: "nat option"

definition module_state :: "'v server" where
  "module_state =
     \<lparr> sseClients = [], headers = (\<lambda>_. []), flushed = (\<lambda>_. False), written = (\<lambda>_. []),
       pings = (\<lambda>_. None), nextRes = 0, console = [], calls = [], exited = None \<rparr>"

subsection \<open>Writing to a response\<close>

definition setHeader :: "nat \<Rightarrow> string \<Rightarrow> string \<Rightarrow> 'v server \<Rightarrow> 'v server" where
  "setHeader res k v s = s\<lparr>headers := (headers s)(res := headers s res @ [(k, v)])\<rparr>"

definition flushHeaders :: "nat \<Rightarrow> 'v server \<Rightarrow> 'v server" where
  "flushHeaders res s = s\<lparr>flushed := (flushed s)(res := True)\<rparr>"

definition res_write :: "nat \<Rightarrow> string \<Rightarrow> 'v server \<Rightarrow> 'v server" where
  "res_write res chunk s = s\<lparr>written := (written s)(res := written s res @ [chunk])\<rparr>"

definition console_log :: "'v console_line \<Rightarrow> 'v server \<Rightarrow> 'v server" where
  "console_log l s = s\<lparr>console := console s @ [l]\<rparr>"

subsection \<open>\<^verbatim>\<open>app.get("/events", ...)\<close>, lines 33 to 53\<close>

definition ping_period :: nat where
  "ping_period = 25000"

definition ping_frame :: string where
  "ping_frame = '':ping\<newline>\<newline>''"

text \<open>
  The handler of \<^verbatim>\<open>GET /events\<close>: four headers, \<^verbatim>\<open>flushHeaders\<close>, \<^verbatim>\<open>sseClients.add(res)\<close>,
  and the keep-alive timer. Nothing is written to the body here.
\<close>

definition get_events :: "'v server \<Rightarrow> 'v server" where
  "get_events s =
     (let res = nextRes s;
          s = s\<lparr>nextRes := Suc res\<rparr>;
          s = setHeader res ''Content-Type'' ''text/event-stream'' s;
          s = setHeader res ''Cache-Control'' ''no-cache'' s;
          s = setHeader res ''Connection'' ''keep-alive'' s;
          s = setHeader res ''X-Accel-Buffering'' ''no'' s;
          s = flushHeaders res s;
          s = s\<lparr>sseClients := set_add res (sseClients s)\<rparr>;
          s = s\<lparr>pings := (pings s)(res := Some ping_period)\<rparr>
      in s)"

text \<open>The timer's callback, line 46; a cleared timer does not fire.\<close>

definition ping_tick :: "nat \<Rightarrow> 'v server \<Rightarrow> 'v server" where
  "ping_tick res s = (if pings s res = None then s else res_write res ping_frame s)"

text \<open>\<^verbatim>\<open>req.on("close", ...)\<close>, lines 49 to 52: \<^verbatim>\<open>clearInterval(ping); sseClients.delete(res)\<close>.\<close>

definition on_close :: "nat \<Rightarrow> 'v server \<Rightarrow> 'v server" where
  "on_close res s =
     (let s = s\<lparr>pings := (pings s)(res := None)\<rparr>
      in s\<lparr>sseClients := set_delete res (sseClients s)\<rparr>)"

subsection \<open>\<^verbatim>\<open>broadcastEvent\<close>, lines 58 to 64\<close>

text \<open>
  \<^verbatim>\<open>JSON.stringify\<close> is the runtime's; the model takes it as the parameter
  \<open>stringify\<close> (the text the template literal \<^verbatim>\<open>`data: ${data}\n\n`\<close> splices in).
  The loop \<^verbatim>\<open>for (const res of sseClients)\<close> is the recursion over the list.
\<close>

definition event_line :: string where
  "event_line = ''event: platformEvent\<newline>''"

definition data_line :: "string \<Rightarrow> string" where
  "data_line d = ''data: '' @ d @ ''\<newline>\<newline>''"

fun broadcast_loop :: "nat list \<Rightarrow> string \<Rightarrow> 'v server \<Rightarrow> 'v server" where
  "broadcast_loop [] d s = s"
| "broadcast_loop (res # rest) d s =
     broadcast_loop rest d (res_write res (data_line d) (res_write res event_line s))"

definition broadcastEvent :: "('v \<Rightarrow> string) \<Rightarrow> 'v \<Rightarrow> 'v server \<Rightarrow> 'v server" where
  "broadcastEvent stringify evt s =
     (let d = stringify evt in broadcast_loop (sseClients s) d s)"

text \<open>The frame one broadcast adds to a response: the two chunks of lines 61 and 62.\<close>

definition frame :: "('v \<Rightarrow> string) \<Rightarrow> 'v \<Rightarrow> string list" where
  "frame stringify evt = [event_line, data_line (stringify evt)]"

subsection \<open>The callbacks of the upstream client, lines 89 to 103\<close>

definition on_data :: "('v \<Rightarrow> string) \<Rightarrow> 'v \<Rightarrow> 'v server \<Rightarrow> 'v server" where
  "on_data stringify d s =
     broadcastEvent stringify d (console_log (Log_val ''topic received data'' d) s)"

definition on_subscribed :: "string \<Rightarrow> 'v server \<Rightarrow> 'v server" where
  "on_subscribed channel s =
     console_log (Log (''Successfully subscribed to channel: '' @ channel)) s"

definition on_subscribe_error :: "string \<Rightarrow> 'v \<Rightarrow> 'v server \<Rightarrow> 'v server" where
  "on_subscribe_error channel e s =
     console_log (Error_val (''Error subscribing to channel: '' @ channel) e) s"

definition on_transport_failure :: "'v \<Rightarrow> 'v server \<Rightarrow> 'v server" where
  "on_transport_failure e s = console_log (Error_val ''CometD transport failure:'' e) s"

text \<open>The callback of \<^verbatim>\<open>app.listen\<close>, lines 105 to 107.\<close>

definition on_listening :: "string \<Rightarrow> 'v server \<Rightarrow> 'v server" where
  "on_listening port s = console_log (Log (''Server listening on http://localhost:'' @ port)) s"

subsection \<open>Start-up: the module's top level and \<^verbatim>\<open>start()\<close>, lines 9 to 115\<close>

text \<open>
  The environment variables after \<^verbatim>\<open>dotenv.config()\<close>: each is a string or
  \<^verbatim>\<open>undefined\<close> (\<open>None\<close>).
\<close>

record env =
  SF_LOGIN_URL :: "string option"
  SF_USERNAME :: "string option"
  SF_PASSWORD :: "string option"
  SF_TOKEN :: "string option"
  SF_PLATFORM_EVENT_API_NAME :: "string option"
  PORT :: "string option"
  CORS_ORIGIN :: "string option"

text \<open>A default of the destructuring on lines 11 to 19 applies to \<^verbatim>\<open>undefined\<close> only.\<close>

definition default_to :: "string \<Rightarrow> string option \<Rightarrow> string" where
  "default_to d v = (case v of None \<Rightarrow> d | Some x \<Rightarrow> x)"

text \<open>\<^verbatim>\<open>!x\<close> for a string or \<^verbatim>\<open>undefined\<close>: true for \<^verbatim>\<open>undefined\<close> and for the empty string.\<close>

definition falsy :: "string option \<Rightarrow> bool" where
  "falsy v = (case v of None \<Rightarrow> True | Some x \<Rightarrow> x = [])"

text \<open>A string spliced into a text: \<^verbatim>\<open>undefined\<close> prints as its name.\<close>

definition str_of :: "string option \<Rightarrow> string" where
  "str_of v = (case v of None \<Rightarrow> ''undefined'' | Some x \<Rightarrow> x)"

definition login_url :: "env \<Rightarrow> string" where
  "login_url e = default_to ''https://test.salesforce.com'' (SF_LOGIN_URL e)"

definition channel_of :: "env \<Rightarrow> string" where
  "channel_of e = ''/event/'' @ default_to ''Session_Event__e'' (SF_PLATFORM_EVENT_API_NAME e)"

definition port_of :: "env \<Rightarrow> string" where
  "port_of e = default_to ''4000'' (PORT e)"

definition process_exit :: "nat \<Rightarrow> 'v server \<Rightarrow> 'v server" where
  "process_exit code s = s\<lparr>exited := Some code\<rparr>"

text \<open>
  A call on a collaborator either returns or throws (for \<^verbatim>\<open>await conn.login(...)\<close>: the
  promise is rejected). The parameter \<open>world\<close> says which: \<open>world c = Some e\<close> when the call
  \<open>c\<close> throws \<open>e\<close>. A call that returned is recorded in \<open>calls\<close>. The result is \<open>Inl\<close> of
  the thrown value and the state at the throw, or \<open>Inr\<close> of the state after the call.
\<close>

definition perform ::
  "(call \<Rightarrow> 'v option) \<Rightarrow> call \<Rightarrow> 'v server \<Rightarrow> ('v \<times> 'v server) + 'v server" where
  "perform world c s =
     (case world c of Some e \<Rightarrow> Inl (e, s) | None \<Rightarrow> Inr (s\<lparr>calls := calls s @ [c]\<rparr>))"

text \<open>The replay position of line 84.\<close>

definition replayId :: int where
  "replayId = - 1"

text \<open>The body of the \<^verbatim>\<open>try\<close> of \<^verbatim>\<open>start()\<close>, lines 71 to 107.\<close>

definition start_try ::
  "(call \<Rightarrow> 'v option) \<Rightarrow> env \<Rightarrow> 'v server \<Rightarrow> ('v \<times> 'v server) + 'v server" where
  "start_try world e s =
     (let s = console_log (Log ''Logging into Salesforce...'') s in
      case perform world
             (Login (login_url e) (str_of (SF_USERNAME e))
                (str_of (SF_PASSWORD e) @ str_of (SF_TOKEN e))) s of
        Inl x \<Rightarrow> Inl x
      | Inr s \<Rightarrow>
     (let s = console_log (Log (''Logged in as '' @ str_of (SF_USERNAME e))) s;
          channel = channel_of e;
          s = console_log (Log (''Subscribing to '' @ channel)) s in
      case perform world (Create_client channel replayId) s of
        Inl x \<Rightarrow> Inl x
      | Inr s \<Rightarrow>
     (case perform world (Subscribe channel) s of
        Inl x \<Rightarrow> Inl x
      | Inr s \<Rightarrow>
     (case perform world On_transport_failure s of
        Inl x \<Rightarrow> Inl x
      | Inr s \<Rightarrow> perform world (Listen (port_of e)) s))))"

text \<open>\<^verbatim>\<open>start()\<close> with its \<^verbatim>\<open>catch\<close>, lines 109 to 112.\<close>

definition start :: "(call \<Rightarrow> 'v option) \<Rightarrow> env \<Rightarrow> 'v server \<Rightarrow> 'v server" where
  "start world e s =
     (case start_try world e s of
        Inr s' \<Rightarrow> s'
      | Inl (err, s') \<Rightarrow> process_exit 1 (console_log (Error_val ''Startup failed:'' err) s'))"

text \<open>The module's top level: the check of lines 21 to 24, then \<^verbatim>\<open>start()\<close>.\<close>

definition main :: "(call \<Rightarrow> 'v option) \<Rightarrow> env \<Rightarrow> 'v server" where
  "main world e =
     (if falsy (SF_USERNAME e) \<or> falsy (SF_PASSWORD e) \<or> falsy (SF_TOKEN e)
      then process_exit 1
             (console_log
                (Error ''Missing Salesforce creds in .env (SF_USERNAME, SF_PASSWORD, SF_TOKEN)'')
                module_state)
      else start world e (console_log (Log (''SF_LOGIN_URL:  '' @ login_url e)) module_state))"

subsection \<open>The running process\<close>

text \<open>
  What can happen to the running server: a request for \<^verbatim>\<open>/events\<close> arrives, the request
  of a response closes, the timer of a response fires, the upstream client calls one of the
  callbacks registered in \<^verbatim>\<open>start()\<close>, the listener reports that it listens. Each runs
  its handler to completion (the event loop runs one callback at a time). The handlers read
  the module's constants (the channel, the port) from the environment \<open>cfg\<close>. The handler
  of \<^verbatim>\<open>GET /health\<close> (line 55) answers on a response of its own and touches none of the
  state below; it is left out.
\<close>

datatype 'v input =
    Get_events
  | Req_close nat
  | Ping_tick nat
  | Data 'v
  | Subscribed
  | Subscribe_error 'v
  | Transport_failure 'v
  | Listening

fun step :: "('v \<Rightarrow> string) \<Rightarrow> env \<Rightarrow> 'v input \<Rightarrow> 'v server \<Rightarrow> 'v server" where
  "step f cfg Get_events s = get_events s"
| "step f cfg (Req_close r) s = on_close r s"
| "step f cfg (Ping_tick r) s = ping_tick r s"
| "step f cfg (Data d) s = on_data f d s"
| "step f cfg Subscribed s = on_subscribed (channel_of cfg) s"
| "step f cfg (Subscribe_error e) s = on_subscribe_error (channel_of cfg) e s"
| "step f cfg (Transport_failure e) s = on_transport_failure e s"
| "step f cfg Listening s = on_listening (port_of cfg) s"

fun run :: "('v \<Rightarrow> string) \<Rightarrow> env \<Rightarrow> 'v input list \<Rightarrow> 'v server \<Rightarrow> 'v server" where
  "run f cfg [] s = s"
| "run f cfg (i # ins) s = run f cfg ins (step f cfg i s)"

text \<open>The whole process: start-up, then the inputs, which a process that exited never sees.\<close>

definition process ::
  "(call \<Rightarrow> 'v option) \<Rightarrow> env \<Rightarrow> ('v \<Rightarrow> string) \<Rightarrow> 'v input list \<Rightarrow> 'v server" where
  "process world e f ins =
     (let s = main world e in
      if exited s = None then run f e ins s else s)"

section \<open>The browser client (client/src/App.jsx)\<close>

subsection \<open>JSON values\<close>

text \<open>
  The values \<^verbatim>\<open>JSON.parse\<close> returns. The type \<open>'n\<close> is the type of numbers, which the
  client never inspects. \<open>JObj\<close> holds an object's own properties in enumeration order; the
  value of a property is its first binding (\<open>map_of\<close>).
\<close>

datatype 'n json =
    JNull
  | JBool bool
  | JNum 'n
  | JStr string
  | JArr "'n json list"
  | JObj "(string \<times> 'n json) list"

text \<open>
  \<^verbatim>\<open>v?.k\<close> for a value \<open>v\<close> that is \<^verbatim>\<open>undefined\<close> (\<open>None\<close>) or a JSON value, and a
  property name \<open>k\<close> that is not one of the built-in prototypes' (the client reads only
  \<^verbatim>\<open>data\<close>, \<^verbatim>\<open>payload\<close>, \<^verbatim>\<open>event\<close>, \<^verbatim>\<open>replayId\<close>, \<^verbatim>\<open>createdDate\<close>, \<^verbatim>\<open>channel\<close> and
  \<^verbatim>\<open>schema\<close>): \<^verbatim>\<open>undefined\<close> on \<^verbatim>\<open>undefined\<close> and \<^verbatim>\<open>null\<close>, the own property on an
  object, \<^verbatim>\<open>undefined\<close> on a boolean, number, string or array.
\<close>

fun opt_chain :: "'n json option \<Rightarrow> string \<Rightarrow> 'n json option" where
  "opt_chain None k = None"
| "opt_chain (Some JNull) k = None"
| "opt_chain (Some (JObj kvs)) k = map_of kvs k"
| "opt_chain (Some (JBool b)) k = None"
| "opt_chain (Some (JNum n)) k = None"
| "opt_chain (Some (JStr s)) k = None"
| "opt_chain (Some (JArr vs)) k = None"

text \<open>\<^verbatim>\<open>a ?? b\<close>: \<open>b\<close> when \<open>a\<close> is \<^verbatim>\<open>undefined\<close> or \<^verbatim>\<open>null\<close>, else \<open>a\<close>.\<close>

fun coalesce :: "'n json option \<Rightarrow> 'n json option \<Rightarrow> 'n json option" where
  "coalesce None b = b"
| "coalesce (Some JNull) b = b"
| "coalesce (Some v) b = Some v"

text \<open>\<^verbatim>\<open>a ?? b\<close> where \<open>b\<close> is not \<^verbatim>\<open>undefined\<close>.\<close>

fun coalesce_to :: "'n json option \<Rightarrow> 'n json \<Rightarrow> 'n json" where
  "coalesce_to None b = b"
| "coalesce_to (Some JNull) b = b"
| "coalesce_to (Some v) b = v"

subsection \<open>The \<^verbatim>\<open>platformEvent\<close> listener, lines 17 to 39\<close>

text \<open>An element of the \<^verbatim>\<open>events\<close> state (lines 24 to 33).\<close>

record 'n event_meta =
  createdDate :: "'n json option"
  type_field :: "'n json option"
  schema :: "'n json option"

record 'n entry =
  id_field :: "'n json"
  payload :: "'n json"
  meta :: "'n event_meta"
  raw :: "'n json"

text \<open>
  The object literal of lines 24 to 33 for a parsed \<open>message\<close>. \<open>uuid\<close> is what
  \<^verbatim>\<open>crypto.randomUUID()\<close> returns when it is called (it is called only where the message
  has no replay position).
\<close>

definition new_entry :: "string \<Rightarrow> 'n json \<Rightarrow> 'n entry" where
  "new_entry uuid message =
     (let payload =
            coalesce_to
              (coalesce (opt_chain (opt_chain (Some message) ''data'') ''payload'')
                 (opt_chain (Some message) ''payload''))
              message;
          evtMeta = coalesce_to (opt_chain (opt_chain (Some message) ''data'') ''event'') (JObj [])
      in \<lparr> id_field = coalesce_to (opt_chain (Some evtMeta) ''replayId'') (JStr uuid),
           payload = payload,
           meta = \<lparr> createdDate = opt_chain (Some evtMeta) ''createdDate'',
                    type_field = opt_chain (Some message) ''channel'',
                    schema = opt_chain (opt_chain (Some message) ''data'') ''schema'' \<rparr>,
           raw = message \<rparr>)"

text \<open>The updater passed to \<^verbatim>\<open>setEvents\<close>: \<^verbatim>\<open>[entry, ...prev].slice(0, 200)\<close>.\<close>

definition keep_last :: "'a \<Rightarrow> 'a list \<Rightarrow> 'a list" where
  "keep_last x prev = take 200 (x # prev)"

text \<open>The component's state: the three \<^verbatim>\<open>useState\<close> cells, and what it printed.\<close>

record 'n client =
  connected :: bool
  events :: "'n entry list"
  filter_text :: string
  client_console :: "string list"

definition initial_client :: "'n client" where
  "initial_client = \<lparr> connected = False, events = [], filter_text = [], client_console = [] \<rparr>"

text \<open>
  The listener. \<^verbatim>\<open>JSON.parse\<close> is the runtime's: the parameter \<open>parse\<close> gives \<open>None\<close> where
  it throws (the \<^verbatim>\<open>catch\<close> of line 36 then only prints) and the value where it returns.
\<close>

definition on_platformEvent ::
  "(string \<Rightarrow> 'n json option) \<Rightarrow> string \<Rightarrow> string \<Rightarrow> 'n client \<Rightarrow> 'n client" where
  "on_platformEvent parse uuid d c =
     (case parse d of
        None \<Rightarrow> c\<lparr>client_console := client_console c @ [''Bad event payload'']\<rparr>
      | Some message \<Rightarrow> c\<lparr>events := keep_last (new_entry uuid message) (events c)\<rparr>)"

text \<open>
  What happens to the mounted component: the source opens, fails, delivers an event named
  \<^verbatim>\<open>platformEvent\<close> with its data (and the UUID a call of \<^verbatim>\<open>crypto.randomUUID()\<close> would
  return then), the filter box changes, the Clear button is clicked.
\<close>

datatype ui_input =
    Source_open
  | Source_error
  | Platform_event string string
  | Filter_change string
  | Clear_click

fun client_step :: "(string \<Rightarrow> 'n json option) \<Rightarrow> ui_input \<Rightarrow> 'n client \<Rightarrow> 'n client" where
  "client_step parse Source_open c = c\<lparr>connected := True\<rparr>"
| "client_step parse Source_error c = c\<lparr>connected := False\<rparr>"
| "client_step parse (Platform_event d uuid) c = on_platformEvent parse uuid d c"
| "client_step parse (Filter_change t) c = c\<lparr>filter_text := t\<rparr>"
| "client_step parse Clear_click c = c\<lparr>events := []\<rparr>"

fun client_run :: "(string \<Rightarrow> 'n json option) \<Rightarrow> ui_input list \<Rightarrow> 'n client \<Rightarrow> 'n client" where
  "client_run parse [] c = c"
| "client_run parse (i # ins) c = client_run parse ins (client_step parse i c)"

subsection \<open>The \<^verbatim>\<open>EventSource\<close> between server and listener\<close>

text \<open>
  The client reads the response through the browser's \<^verbatim>\<open>EventSource\<close> (line 11) and
  registers its listener for events named \<^verbatim>\<open>platformEvent\<close> (line 17). How the browser
  turns the bytes of the response into events is fixed by the HTML standard (section
  ``Interpreting an event stream''), which the definitions below follow character by
  character: lines end at LF, CR or CRLF; an empty line dispatches the pending event, if
  it has data; a line that starts with a colon is a comment; any other line is a field
  name, and a value after the first colon less one leading space. The parser takes the
  stream one character at a time, so how the transport cuts the stream into packets does
  not matter. (A byte order mark at the start of a stream, which this server never sends,
  is not modelled.)
\<close>

record sse_event =
  event_type :: string
  event_data :: string
  last_event_id :: string

record sse_parser =
  line_buf :: string
  after_cr :: bool
  data_buf :: string
  type_buf :: string
  id_buf :: string
  retry_buf :: "string option"
  dispatched :: "sse_event list"

definition new_parser :: sse_parser where
  "new_parser =
     \<lparr> line_buf = [], after_cr = False, data_buf = [], type_buf = [], id_buf = [],
       retry_buf = None, dispatched = [] \<rparr>"

definition LF :: char where
  "LF = CHR 0x0A"

definition CR :: char where
  "CR = CHR 0x0D"

definition is_digit :: "char \<Rightarrow> bool" where
  "is_digit c = (c \<in> set ''0123456789'')"

definition split_field :: "string \<Rightarrow> string \<times> string" where
  "split_field l =
     (if CHR '':'' \<in> set l
      then (let v = tl (dropWhile (\<lambda>c. c \<noteq> CHR '':'') l)
            in (takeWhile (\<lambda>c. c \<noteq> CHR '':'') l,
                case v of [] \<Rightarrow> [] | c # r \<Rightarrow> if c = CHR '' '' then r else v))
      else (l, []))"

definition process_field :: "string \<Rightarrow> string \<Rightarrow> sse_parser \<Rightarrow> sse_parser" where
  "process_field name v p =
     (if name = ''event'' then p\<lparr>type_buf := v\<rparr>
      else if name = ''data'' then p\<lparr>data_buf := data_buf p @ v @ [LF]\<rparr>
      else if name = ''id'' then (if CHR 0x00 \<in> set v then p else p\<lparr>id_buf := v\<rparr>)
      else if name = ''retry'' then (if list_all is_digit v then p\<lparr>retry_buf := Some v\<rparr> else p)
      else p)"

definition dispatch :: "sse_parser \<Rightarrow> sse_parser" where
  "dispatch p =
     (if data_buf p = [] then p\<lparr>data_buf := [], type_buf := []\<rparr>
      else
        (let d = (if last (data_buf p) = LF then butlast (data_buf p) else data_buf p);
             ev = \<lparr> event_type = (if type_buf p = [] then ''message'' else type_buf p),
                    event_data = d, last_event_id = id_buf p \<rparr>
         in p\<lparr>dispatched := dispatched p @ [ev], data_buf := [], type_buf := []\<rparr>))"

definition process_line :: "string \<Rightarrow> sse_parser \<Rightarrow> sse_parser" where
  "process_line l p =
     (case l of
        [] \<Rightarrow> dispatch p
      | c # r \<Rightarrow>
          if c = CHR '':'' then p
          else (case split_field l of (name, v) \<Rightarrow> process_field name v p))"

definition end_of_line :: "sse_parser \<Rightarrow> sse_parser" where
  "end_of_line p = process_line (line_buf p) (p\<lparr>line_buf := []\<rparr>)"

definition feed_char :: "char \<Rightarrow> sse_parser \<Rightarrow> sse_parser" where
  "feed_char c p =
     (if c = LF then (if after_cr p then p\<lparr>after_cr := False\<rparr> else end_of_line p)
      else if c = CR then (end_of_line p)\<lparr>after_cr := True\<rparr>
      else p\<lparr>line_buf := line_buf p @ [c], after_cr := False\<rparr>)"

fun sse_feed :: "string \<Rightarrow> sse_parser \<Rightarrow> sse_parser" where
  "sse_feed [] p = p"
| "sse_feed (c # cs) p = sse_feed cs (feed_char c p)"

text \<open>The parser between two frames: no partial line, no pending field.\<close>

definition between_frames :: "sse_parser \<Rightarrow> bool" where
  "between_frames p =
     (line_buf p = [] \<and> after_cr p = False \<and> data_buf p = [] \<and> type_buf p = [])"

text \<open>
  The calls of the listener of line 17 for the events dispatched: those named
  \<^verbatim>\<open>platformEvent\<close>, each with its data (\<^verbatim>\<open>e.data\<close>) and the UUID \<open>uuid i\<close> that
  \<^verbatim>\<open>crypto.randomUUID()\<close> returns for the \<open>i\<close>-th of them.
\<close>

definition listener_calls :: "(nat \<Rightarrow> string) \<Rightarrow> sse_event list \<Rightarrow> ui_input list" where
  "listener_calls uuid evs =
     map (\<lambda>(i, ev). Platform_event (event_data ev) (uuid i))
       (enumerate 0 (filter (\<lambda>ev. event_type ev = ''platformEvent'') evs))"

section \<open>\<^verbatim>\<open>JSON.stringify\<close> on JSON values\<close>

text \<open>
  The serialisation of a JSON value as ECMAScript defines it (\<^verbatim>\<open>JSON.stringify\<close> with one
  argument), used to instantiate the parameter \<open>stringify\<close> of the server at concrete
  messages. Strings are UTF-8 bytes; the parameter \<open>num\<close> prints a number.
\<close>

definition hex_digit :: "nat \<Rightarrow> char" where
  "hex_digit n = ''0123456789abcdef'' ! (n mod 16)"

definition escape_char :: "char \<Rightarrow> string" where
  "escape_char c =
     (if c = CHR 0x22 then [CHR 0x5C, CHR 0x22]
      else if c = CHR 0x5C then [CHR 0x5C, CHR 0x5C]
      else if c = CHR 0x08 then [CHR 0x5C, CHR ''b'']
      else if c = CHR 0x0C then [CHR 0x5C, CHR ''f'']
      else if c = CHR 0x0A then [CHR 0x5C, CHR ''n'']
      else if c = CHR 0x0D then [CHR 0x5C, CHR ''r'']
      else if c = CHR 0x09 then [CHR 0x5C, CHR ''t'']
      else if of_char c < (32 :: nat)
        then [CHR 0x5C, CHR ''u'', CHR ''0'', CHR ''0'',
              hex_digit (of_char c div 16), hex_digit (of_char c)]
      else [c])"

definition quote :: "string \<Rightarrow> string" where
  "quote s = [CHR 0x22] @ concat (map escape_char s) @ [CHR 0x22]"

fun JSON_stringify :: "('n \<Rightarrow> string) \<Rightarrow> 'n json \<Rightarrow> string"
  and stringify_elements :: "('n \<Rightarrow> string) \<Rightarrow> 'n json list \<Rightarrow> string"
  and stringify_properties :: "('n \<Rightarrow> string) \<Rightarrow> (string \<times> 'n json) list \<Rightarrow> string" where
  "JSON_stringify num JNull = ''null''"
| "JSON_stringify num (JBool b) = (if b then ''true'' else ''false'')"
| "JSON_stringify num (JNum n) = num n"
| "JSON_stringify num (JStr s) = quote s"
| "JSON_stringify num (JArr vs) = ''['' @ stringify_elements num vs @ '']''"
| "JSON_stringify num (JObj kvs) = ''{'' @ stringify_properties num kvs @ ''}''"
| "stringify_elements num [] = []"
| "stringify_elements num [v] = JSON_stringify num v"
| "stringify_elements num (v # w # vs) =
     JSON_stringify num v @ '','' @ stringify_elements num (w # vs)"
| "stringify_properties num [] = []"
| "stringify_properties num [(k, v)] = quote k @ '':'' @ JSON_stringify num v"
| "stringify_properties num ((k, v) # kv # kvs) =
     quote k @ '':'' @ JSON_stringify num v @ '','' @ stringify_properties num (kv # kvs)"

text \<open>
  Whole numbers in decimal, as \<^verbatim>\<open>JSON.stringify\<close> prints them below \<open>10\<^sup>2\<^sup>1\<close> in
  magnitude (from there on it prints the exponent form, which no scenario uses).
\<close>

fun show_nat :: "nat \<Rightarrow> string" where
  "show_nat n =
     (if n < 10 then [''0123456789'' ! n] else show_nat (n div 10) @ [''0123456789'' ! (n mod 10)])"

definition show_int :: "int \<Rightarrow> string" where
  "show_int i = (if i < 0 then ''-'' @ show_nat (nat (- i)) else show_nat (nat i))"

section \<open>What a consumer is to receive\<close>

text \<open>
  The fan-out as the specification words it, from one consumer's side: the consumer with
  handle \<open>c\<close> receives the frame of every event broadcast while it is in the registry, once
  and in the order of the broadcasts, and nothing of a broadcast before it attached or
  after it detached (and its own heartbeat while attached). The text of a frame is written
  out here as the attach endpoint is to send it: the line \<^verbatim>\<open>event: platformEvent\<close>, then
  \<^verbatim>\<open>data: \<close> with the JSON text of the event, then an empty line. \<open>n\<close> is the handle the
  next attach gets, \<open>a\<close> says whether \<open>c\<close> is attached.
\<close>

fun spec_stream :: "('v \<Rightarrow> string) \<Rightarrow> nat \<Rightarrow> nat \<Rightarrow> bool \<Rightarrow> 'v input list \<Rightarrow> string list" where
  "spec_stream f c n a [] = []"
| "spec_stream f c n a (Get_events # ins) = spec_stream f c (Suc n) (if n = c then True else a) ins"
| "spec_stream f c n a (Req_close r # ins) = spec_stream f c n (if r = c then False else a) ins"
| "spec_stream f c n a (Ping_tick r # ins) =
     (if a \<and> r = c then ['':ping\<newline>\<newline>''] else []) @ spec_stream f c n a ins"
| "spec_stream f c n a (Data d # ins) =
     (if a then [''event: platformEvent\<newline>'', ''data: '' @ f d @ ''\<newline>\<newline>''] else []) @
     spec_stream f c n a ins"
| "spec_stream f c n a (Subscribed # ins) = spec_stream f c n a ins"
| "spec_stream f c n a (Subscribe_error e # ins) = spec_stream f c n a ins"
| "spec_stream f c n a (Transport_failure e # ins) = spec_stream f c n a ins"
| "spec_stream f c n a (Listening # ins) = spec_stream f c n a ins"

text \<open>The events among them: what the consumer \<open>c\<close> is to receive, in order.\<close>

fun spec_received :: "nat \<Rightarrow> nat \<Rightarrow> bool \<Rightarrow> 'v input list \<Rightarrow> 'v list" where
  "spec_received c n a [] = []"
| "spec_received c n a (Get_events # ins) = spec_received c (Suc n) (if n = c then True else a) ins"
| "spec_received c n a (Req_close r # ins) = spec_received c n (if r = c then False else a) ins"
| "spec_received c n a (Ping_tick r # ins) = spec_received c n a ins"
| "spec_received c n a (Data d # ins) = (if a then [d] else []) @ spec_received c n a ins"
| "spec_received c n a (Subscribed # ins) = spec_received c n a ins"
| "spec_received c n a (Subscribe_error e # ins) = spec_received c n a ins"
| "spec_received c n a (Transport_failure e # ins) = spec_received c n a ins"
| "spec_received c n a (Listening # ins) = spec_received c n a ins"

text \<open>
  The shape of the registry in every state the running server reaches: no handle twice,
  every handle already given out, a timer exactly for the registered responses, nothing
  written to a response that does not exist yet.
\<close>

definition wf :: "'v server \<Rightarrow> bool" where
  "wf s =
     (distinct (sseClients s) \<and>
      (\<forall>c \<in> set (sseClients s). c < nextRes s) \<and>
      (\<forall>c. (pings s c \<noteq> None) = (c \<in> set (sseClients s))) \<and>
      (\<forall>c. nextRes s \<le> c \<longrightarrow> written s c = []))"

text \<open>
  The condition of line 21, and the calls of \<^verbatim>\<open>start()\<close> on the collaborators in the order
  of the source.
\<close>

definition creds_missing :: "env \<Rightarrow> bool" where
  "creds_missing e = (falsy (SF_USERNAME e) \<or> falsy (SF_PASSWORD e) \<or> falsy (SF_TOKEN e))"

definition startup_calls :: "env \<Rightarrow> call list" where
  "startup_calls e =
     [Login (login_url e) (str_of (SF_USERNAME e)) (str_of (SF_PASSWORD e) @ str_of (SF_TOKEN e)),
      Create_client (channel_of e) replayId,
      Subscribe (channel_of e),
      On_transport_failure,
      Listen (port_of e)]"

text \<open>A text with no line end in it: one line of an event stream.\<close>

definition one_line :: "string \<Rightarrow> bool" where
  "one_line cs = (LF \<notin> set cs \<and> CR \<notin> set cs)"

text \<open>The client's list as the sequence of frames it was sent, newest first, unbounded.\<close>

fun entries_of :: "(string \<Rightarrow> 'n json option) \<Rightarrow> ui_input list \<Rightarrow> 'n entry list \<Rightarrow> 'n entry list" where
  "entries_of parse [] acc = acc"
| "entries_of parse (Platform_event d uuid # ins) acc =
     entries_of parse ins
       (case parse d of None \<Rightarrow> acc | Some message \<Rightarrow> new_entry uuid message # acc)"
| "entries_of parse (Clear_click # ins) acc = entries_of parse ins []"
| "entries_of parse (Source_open # ins) acc = entries_of parse ins acc"
| "entries_of parse (Source_error # ins) acc = entries_of parse ins acc"
| "entries_of parse (Filter_change t # ins) acc = entries_of parse ins acc"

section \<open>Scenarios\<close>

text \<open>
  The scenario of the specification: channel \<^verbatim>\<open>Orders__e\<close>, all credentials present, every
  call on a collaborator returns; an upstream message in the envelope of the attach
  endpoint with payload \<^verbatim>\<open>{"total": 42}\<close> and replay position 1.
\<close>

definition orders_env :: env where
  "orders_env =
     \<lparr> SF_LOGIN_URL = None, SF_USERNAME = Some ''user@example.com'', SF_PASSWORD = Some ''pw'',
       SF_TOKEN = Some ''tok'', SF_PLATFORM_EVENT_API_NAME = Some ''Orders__e'', PORT = None,
       CORS_ORIGIN = None \<rparr>"

definition all_return :: "call \<Rightarrow> int json option" where
  "all_return c = None"

fun login_rejected :: "call \<Rightarrow> int json option" where
  "login_rejected (Login url user pw) = Some (JStr ''INVALID_LOGIN'')"
| "login_rejected (Create_client chan r) = None"
| "login_rejected (Subscribe chan) = None"
| "login_rejected On_transport_failure = None"
| "login_rejected (Listen p) = None"

definition order :: "int \<Rightarrow> int json" where
  "order k =
     JObj [(''channel'', JStr ''/event/Orders__e''),
           (''payload'', JObj [(''total'', JNum 42)]),
           (''event'', JObj [(''replayId'', JNum k), (''createdDate'', JStr ''2025-01-01T00:00:00Z'')]),
           (''schema'', JStr ''s1'')]"

definition stringify :: "int json \<Rightarrow> string" where
  "stringify = JSON_stringify show_int"

text \<open>The running server of the scenario after the inputs \<open>ins\<close>.\<close>

definition orders_server :: "int json input list \<Rightarrow> int json server" where
  "orders_server ins = process all_return orders_env stringify ins"

text \<open>
  What \<^verbatim>\<open>JSON.parse\<close> does on the three texts the client scenarios send: it returns the
  value of \<^verbatim>\<open>null\<close> and of \<^verbatim>\<open>{"payload":{"total":42}}\<close>, and throws on \<^verbatim>\<open>{bad\<close>, which is
  not JSON. (The scenarios send no other text.)
\<close>

definition total_42 :: string where
  "total_42 = stringify (JObj [(''payload'', JObj [(''total'', JNum 42)])])"

definition sample_parse :: "string \<Rightarrow> int json option" where
  "sample_parse d =
     (if d = ''null'' then Some JNull
      else if d = total_42 then Some (JObj [(''payload'', JObj [(''total'', JNum 42)])])
      else None)"

section \<open>Properties of the server's handlers\<close>

lemma frame_text:
  "frame f d = [''event: platformEvent\<newline>'', ''data: '' @ f d @ ''\<newline>\<newline>'']"
  by (simp add: frame_def event_line_def data_line_def)

lemma ping_text: "ping_frame = '':ping\<newline>\<newline>''"
  by (simp add: ping_frame_def)

lemma spec_stream_frames [simp]:
  "spec_stream f c n a (Ping_tick r # ins) =
     (if a \<and> r = c then [ping_frame] else []) @ spec_stream f c n a ins"
  "spec_stream f c n a (Data d # ins) = (if a then frame f d else []) @ spec_stream f c n a ins"
  by (simp_all add: frame_text ping_text)

declare spec_stream.simps(4,5) [simp del]

lemma once_in_distinct:
  "distinct cs \<Longrightarrow> concat (map (\<lambda>x. if x = c then F else []) cs) = (if c \<in> set cs then F else [])"
  by (induction cs) auto

lemma broadcast_loop_eq:
  "broadcast_loop cs d s =
     s\<lparr>written := (\<lambda>c. written s c @ concat (map (\<lambda>x. if x = c then [event_line, data_line d] else []) cs))\<rparr>"
proof (induction cs arbitrary: s)
  case Nil
  show ?case by simp
next
  case (Cons r rest)
  show ?case
    by (simp add: Cons.IH res_write_def fun_eq_iff)
qed

lemma broadcastEvent_eq:
  "distinct (sseClients s) \<Longrightarrow>
   broadcastEvent f e s =
     s\<lparr>written := (\<lambda>c. written s c @ (if c \<in> set (sseClients s) then frame f e else []))\<rparr>"
  by (simp add: broadcastEvent_def broadcast_loop_eq once_in_distinct frame_def fun_eq_iff)

lemma broadcastEvent_fields [simp]:
  "sseClients (broadcastEvent f e s) = sseClients s"
  "pings (broadcastEvent f e s) = pings s"
  "nextRes (broadcastEvent f e s) = nextRes s"
  "calls (broadcastEvent f e s) = calls s"
  "exited (broadcastEvent f e s) = exited s"
  "console (broadcastEvent f e s) = console s"
  "headers (broadcastEvent f e s) = headers s"
  "flushed (broadcastEvent f e s) = flushed s"
  by (simp_all add: broadcastEvent_def broadcast_loop_eq)

lemma get_events_fields:
  "nextRes (get_events s) = Suc (nextRes s)"
  "sseClients (get_events s) = set_add (nextRes s) (sseClients s)"
  "pings (get_events s) = (pings s)(nextRes s := Some ping_period)"
  "written (get_events s) = written s"
  "calls (get_events s) = calls s"
  "exited (get_events s) = exited s"
  "console (get_events s) = console s"
  by (simp_all add: get_events_def Let_def setHeader_def flushHeaders_def)

lemma on_close_fields:
  "nextRes (on_close r s) = nextRes s"
  "sseClients (on_close r s) = removeAll r (sseClients s)"
  "pings (on_close r s) = (pings s)(r := None)"
  "written (on_close r s) = written s"
  "calls (on_close r s) = calls s"
  "exited (on_close r s) = exited s"
  "console (on_close r s) = console s"
  by (simp_all add: on_close_def Let_def set_delete_def)

lemma ping_tick_fields:
  "nextRes (ping_tick r s) = nextRes s"
  "sseClients (ping_tick r s) = sseClients s"
  "pings (ping_tick r s) = pings s"
  "written (ping_tick r s) = (if pings s r = None then written s else (written s)(r := written s r @ [ping_frame]))"
  "calls (ping_tick r s) = calls s"
  "exited (ping_tick r s) = exited s"
  "console (ping_tick r s) = console s"
  by (simp_all add: ping_tick_def res_write_def)

lemma console_log_fields:
  "nextRes (console_log l s) = nextRes s"
  "sseClients (console_log l s) = sseClients s"
  "pings (console_log l s) = pings s"
  "written (console_log l s) = written s"
  "calls (console_log l s) = calls s"
  "exited (console_log l s) = exited s"
  "console (console_log l s) = console s @ [l]"
  by (simp_all add: console_log_def)

lemma on_data_written:
  "distinct (sseClients s) \<Longrightarrow>
   written (on_data f e s) c = written s c @ (if c \<in> set (sseClients s) then frame f e else [])"
  by (simp add: on_data_def broadcastEvent_eq console_log_fields)

lemma on_data_fields:
  "nextRes (on_data f e s) = nextRes s"
  "sseClients (on_data f e s) = sseClients s"
  "pings (on_data f e s) = pings s"
  "calls (on_data f e s) = calls s"
  "exited (on_data f e s) = exited s"
  "console (on_data f e s) = console s @ [Log_val ''topic received data'' e]"
  by (simp_all add: on_data_def console_log_fields)

lemma wf_step: "wf s \<Longrightarrow> wf (step f cfg i s)"
proof (cases i)
  case Get_events
  assume "wf s"
  then show ?thesis using Get_events
    by (auto simp: wf_def get_events_fields set_add_def less_Suc_eq)
next
  case (Req_close r)
  assume "wf s"
  then show ?thesis using Req_close
    by (auto simp: wf_def on_close_fields distinct_removeAll)
next
  case (Ping_tick r)
  assume w: "wf s"
  then have "pings s r \<noteq> None \<Longrightarrow> r < nextRes s"
    by (auto simp: wf_def)
  with w show ?thesis using Ping_tick
    by (auto simp: wf_def ping_tick_fields)
next
  case (Data d)
  assume w: "wf s"
  then have "distinct (sseClients s)" by (simp add: wf_def)
  with w show ?thesis using Data
    by (auto simp: wf_def on_data_fields on_data_written)
next
  case Subscribed
  assume "wf s"
  then show ?thesis using Subscribed
    by (simp add: wf_def on_subscribed_def console_log_fields)
next
  case (Subscribe_error e)
  assume "wf s"
  then show ?thesis using Subscribe_error
    by (simp add: wf_def on_subscribe_error_def console_log_fields)
next
  case (Transport_failure e)
  assume "wf s"
  then show ?thesis using Transport_failure
    by (simp add: wf_def on_transport_failure_def console_log_fields)
next
  case Listening
  assume "wf s"
  then show ?thesis using Listening
    by (simp add: wf_def on_listening_def console_log_fields)
qed

lemma wf_run: "wf s \<Longrightarrow> wf (run f cfg ins s)"
  by (induction ins arbitrary: s) (simp_all add: wf_step)

lemma written_step:
  assumes "wf s"
  shows "written (step f cfg i s) c =
           written s c @ spec_stream f c (nextRes s) (c \<in> set (sseClients s)) [i]"
proof (cases i)
  case (Ping_tick r)
  with assms show ?thesis by (auto simp: wf_def ping_tick_fields)
next
  case (Data d)
  with assms show ?thesis by (simp add: wf_def on_data_written)
qed (simp_all add: get_events_fields on_close_fields on_subscribed_def
       on_subscribe_error_def on_transport_failure_def on_listening_def console_log_fields)

lemma written_run:
  "wf s \<Longrightarrow>
   written (run f cfg ins s) c =
     written s c @ spec_stream f c (nextRes s) (c \<in> set (sseClients s)) ins"
proof (induction ins arbitrary: s)
  case Nil
  show ?case by simp
next
  case (Cons i ins)
  have w': "wf (step f cfg i s)" using Cons.prems by (rule wf_step)
  show ?case
  proof (cases i)
    case Get_events
    have "nextRes s \<notin> set (sseClients s)" using Cons.prems by (auto simp: wf_def)
    then show ?thesis
      using Cons.IH [OF w'] Get_events
      by (auto simp: get_events_fields set_add_def)
  next
    case (Req_close r)
    then show ?thesis
      using Cons.IH [OF w'] by (auto simp: on_close_fields)
  next
    case (Ping_tick r)
    then show ?thesis
      using Cons.IH [OF w'] Cons.prems by (auto simp: ping_tick_fields wf_def)
  next
    case (Data d)
    then show ?thesis
      using Cons.IH [OF w'] Cons.prems by (simp add: on_data_fields on_data_written wf_def)
  qed (use Cons.IH [OF w'] in \<open>simp_all add: on_subscribed_def
       on_subscribe_error_def on_transport_failure_def on_listening_def console_log_fields\<close>)
qed

subsection \<open>Start-up\<close>

lemma main_calls:
  "calls (main world e) =
     (if creds_missing e then [] else takeWhile (\<lambda>c. world c = None) (startup_calls e))"
  by (simp add: main_def start_def start_try_def perform_def process_exit_def console_log_def
      module_state_def creds_missing_def startup_calls_def Let_def split: option.splits)

lemma main_exited:
  "exited (main world e) =
     (if creds_missing e \<or> list_ex (\<lambda>c. world c \<noteq> None) (startup_calls e) then Some 1 else None)"
  by (simp add: main_def start_def start_try_def perform_def process_exit_def console_log_def
      module_state_def creds_missing_def startup_calls_def Let_def split: option.splits)

lemma main_registry:
  "sseClients (main world e) = []"
  "nextRes (main world e) = 0"
  "written (main world e) = (\<lambda>_. [])"
  "pings (main world e) = (\<lambda>_. None)"
  by (simp_all add: main_def start_def start_try_def perform_def process_exit_def console_log_def
      module_state_def Let_def split: option.splits)

lemma wf_main: "wf (main world e)"
  by (simp add: wf_def main_registry)

lemma run_exited: "exited (run f cfg ins s) = exited s"
proof (induction ins arbitrary: s)
  case Nil
  show ?case by simp
next
  case (Cons i ins)
  have "exited (step f cfg i s) = exited s"
    by (cases i) (simp_all add: get_events_fields on_close_fields ping_tick_fields on_data_fields
        on_subscribed_def on_subscribe_error_def on_transport_failure_def on_listening_def console_log_fields)
  with Cons.IH show ?case by simp
qed

lemma run_calls: "calls (run f cfg ins s) = calls s"
proof (induction ins arbitrary: s)
  case Nil
  show ?case by simp
next
  case (Cons i ins)
  have "calls (step f cfg i s) = calls s"
    by (cases i) (simp_all add: get_events_fields on_close_fields ping_tick_fields on_data_fields
        on_subscribed_def on_subscribe_error_def on_transport_failure_def on_listening_def console_log_fields)
  with Cons.IH show ?case by simp
qed

lemma wf_process: "wf (process world e f ins)"
  by (simp add: process_def Let_def wf_main wf_run)

lemma written_process:
  "exited (main world e) = None \<Longrightarrow>
   written (process world e f ins) c = spec_stream f c 0 False ins"
  using written_run [OF wf_main, of f e ins world e c]
  by (simp add: process_def Let_def main_registry)

lemma run_append: "run f cfg (xs @ ys) s = run f cfg ys (run f cfg xs s)"
  by (induction xs arbitrary: s) simp_all



lemma process_append:
  "exited (main world e) = None \<Longrightarrow>
   process world e f (xs @ ys) = run f e ys (process world e f xs)"
  by (simp add: process_def Let_def run_append)

lemma orders_started: "exited (main all_return orders_env) = None"
  by (simp add: main_exited creds_missing_def orders_env_def falsy_def all_return_def
      startup_calls_def)



lemma spec_stream_data: "spec_stream f c n True (map Data evts) = concat (map (frame f) evts)"
  by (induction evts) simp_all

lemma run_data_registry: "sseClients (run f cfg (map Data evts) s) = sseClients s"
  by (induction evts arbitrary: s) (simp_all add: on_data_fields)

lemma step_removes:
  "c \<in> set (sseClients s) \<Longrightarrow> c \<notin> set (sseClients (step f cfg i s)) \<Longrightarrow> i = Req_close c"
  by (cases i) (auto simp: get_events_fields on_close_fields ping_tick_fields on_data_fields
      on_subscribed_def on_subscribe_error_def on_transport_failure_def on_listening_def console_log_fields
      set_add_def split: if_splits)

lemma listen_after_all:
  "Listen (port_of e) \<in> set (takeWhile (\<lambda>c. world c = None) (startup_calls e)) \<Longrightarrow>
   \<not> list_ex (\<lambda>c. world c \<noteq> None) (startup_calls e)"
  by (simp add: startup_calls_def split: if_splits)

subsection \<open>The event stream as the browser reads it\<close>

lemma sse_feed_append: "sse_feed (a @ b) p = sse_feed b (sse_feed a p)"
  by (induction a arbitrary: p) simp_all

lemma feed_char_plain:
  "c \<noteq> LF \<Longrightarrow> c \<noteq> CR \<Longrightarrow>
   feed_char c p = p\<lparr>line_buf := line_buf p @ [c], after_cr := False\<rparr>"
  by (simp add: feed_char_def)

lemma sse_feed_plain:
  "LF \<notin> set cs \<Longrightarrow> CR \<notin> set cs \<Longrightarrow> cs \<noteq> [] \<Longrightarrow>
   sse_feed cs p = p\<lparr>line_buf := line_buf p @ cs, after_cr := False\<rparr>"
proof (induction cs arbitrary: p)
  case Nil
  then show ?case by simp
next
  case (Cons c cs)
  have c: "c \<noteq> LF" "c \<noteq> CR" using Cons.prems by auto
  show ?case
  proof (cases "cs = []")
    case True
    then show ?thesis by (simp add: feed_char_plain [OF c])
  next
    case False
    with Cons show ?thesis by (simp add: feed_char_plain [OF c])
  qed
qed

lemma sse_feed_ping:
  assumes "between_frames p"
  shows "sse_feed ping_frame p = p"
proof -
  obtain l a d t i r ds where p: "p = \<lparr>line_buf = l, after_cr = a, data_buf = d, type_buf = t,
      id_buf = i, retry_buf = r, dispatched = ds\<rparr>"
    by (cases p) blast
  with assms show ?thesis
    by (simp add: between_frames_def ping_frame_def feed_char_def LF_def CR_def end_of_line_def
        process_line_def dispatch_def)
qed

lemma sse_feed_frame:
  assumes "between_frames p" and "LF \<notin> set d" and "CR \<notin> set d"
  shows "sse_feed (event_line @ data_line d) p =
           p\<lparr>dispatched := dispatched p @
               [\<lparr>event_type = ''platformEvent'', event_data = d, last_event_id = id_buf p\<rparr>]\<rparr>"
proof -
  obtain l a db t i r ds where p: "p = \<lparr>line_buf = l, after_cr = a, data_buf = db, type_buf = t,
      id_buf = i, retry_buf = r, dispatched = ds\<rparr>"
    by (cases p) blast
  have bf: "l = []" "a = False" "db = []" "t = []"
    using assms(1) p by (simp_all add: between_frames_def)
  let ?p1 = "p\<lparr>type_buf := ''platformEvent''\<rparr>"
  have 1: "sse_feed event_line p = ?p1"
    using p bf
    by (simp add: event_line_def feed_char_def LF_def CR_def end_of_line_def
        process_line_def split_field_def process_field_def)
  have ne: "''data: '' @ d \<noteq> []" by simp
  have pl: "LF \<notin> set (''data: '' @ d)" "CR \<notin> set (''data: '' @ d)"
    using assms(2,3) by (simp_all add: LF_def CR_def)
  have 2: "sse_feed (''data: '' @ d) ?p1 = ?p1\<lparr>line_buf := ''data: '' @ d, after_cr := False\<rparr>"
    using sse_feed_plain [OF pl ne, of ?p1] p bf by simp
  have 3: "sse_feed [LF, LF] (?p1\<lparr>line_buf := ''data: '' @ d, after_cr := False\<rparr>) =
      p\<lparr>dispatched := dispatched p @
               [\<lparr>event_type = ''platformEvent'', event_data = d, last_event_id = id_buf p\<rparr>]\<rparr>"
    using p bf
    by (simp add: feed_char_def end_of_line_def process_line_def split_field_def
        process_field_def dispatch_def)
  have "event_line @ data_line d = event_line @ (''data: '' @ d) @ [LF, LF]"
    by (simp add: data_line_def LF_def)
  then show ?thesis
    using 1 2 3 by (simp only: sse_feed_append)
qed

lemma hex_digit_plain: "hex_digit n \<noteq> LF" "hex_digit n \<noteq> CR"
proof -
  have "n mod 16 < length ''0123456789abcdef''" by simp
  then have "hex_digit n \<in> set ''0123456789abcdef''"
    unfolding hex_digit_def by (rule nth_mem)
  then show "hex_digit n \<noteq> LF" "hex_digit n \<noteq> CR"
    by (auto simp: LF_def CR_def)
qed

lemma one_line_simps [simp]:
  "one_line []"
  "one_line (c # cs) = (c \<noteq> LF \<and> c \<noteq> CR \<and> one_line cs)"
  "one_line (a @ b) = (one_line a \<and> one_line b)"
  by (auto simp: one_line_def)

lemma escape_char_one_line: "one_line (escape_char c)"
proof -
  have "c \<noteq> CHR 0x0A \<Longrightarrow> c \<noteq> CHR 0x0D \<Longrightarrow> one_line [c]"
    by (simp add: LF_def CR_def)
  moreover have "one_line [CHR 0x5C, CHR ''u'', CHR ''0'', CHR ''0'',
              hex_digit (of_char c div 16), hex_digit (of_char c)]"
    using hex_digit_plain by (simp add: LF_def CR_def)
  moreover have "one_line [CHR 0x5C, x]" if "x \<in> set [CHR 0x22, CHR 0x5C, CHR ''b'', CHR ''f'', CHR ''n'', CHR ''r'', CHR ''t'']" for x
    using that by (auto simp: LF_def CR_def)
  ultimately show ?thesis
    unfolding escape_char_def by (simp del: one_line_simps)
qed

lemma one_line_concat: "(\<And>x. x \<in> set xs \<Longrightarrow> one_line x) \<Longrightarrow> one_line (concat xs)"
  by (induction xs) simp_all

lemma quote_one_line: "one_line (quote s)"
proof -
  have "one_line (concat (map escape_char s))"
    by (rule one_line_concat) (auto simp: escape_char_one_line)
  then show ?thesis by (simp add: quote_def LF_def CR_def)
qed

lemma digit_plain: "one_line [''0123456789'' ! (n mod 10)]"
proof -
  have "n mod 10 < length ''0123456789''" by simp
  then have "''0123456789'' ! (n mod 10) \<in> set ''0123456789''" by (rule nth_mem)
  then show ?thesis by (auto simp: LF_def CR_def)
qed

lemma show_nat_one_line: "one_line (show_nat n)"
proof (induction n rule: show_nat.induct)
  case (1 n)
  show ?case
  proof (cases "n < 10")
    case True
    then have "show_nat n = [''0123456789'' ! (n mod 10)]"
      by (subst show_nat.simps) simp
    then show ?thesis using digit_plain [of n] by simp
  next
    case False
    then have "show_nat n = show_nat (n div 10) @ [''0123456789'' ! (n mod 10)]"
      by (subst show_nat.simps) simp
    then show ?thesis using 1 False digit_plain [of n] by simp
  qed
qed

lemma show_int_one_line: "one_line (show_int i)"
  using show_nat_one_line by (simp add: show_int_def LF_def CR_def)

lemma literal_one_line:
  "one_line ''null''" "one_line ''true''" "one_line ''false''" "one_line ''[''" "one_line '']''"
  "one_line ''{''" "one_line ''}''" "one_line '',''" "one_line '':''" "one_line []"
  by (simp_all add: LF_def CR_def)

lemma JSON_stringify_one_line_aux:
  "(\<forall>n. one_line (num n)) \<longrightarrow> one_line (JSON_stringify num v)"
  "(\<forall>n. one_line (num n)) \<longrightarrow> one_line (stringify_elements num vs)"
  "(\<forall>n. one_line (num n)) \<longrightarrow> one_line (stringify_properties num kvs)"
  by (induction num v and num vs and num kvs
      rule: JSON_stringify_stringify_elements_stringify_properties.induct)
    (simp_all add: quote_one_line literal_one_line LF_def CR_def)

lemma JSON_stringify_one_line:
  "(\<And>n. one_line (num n)) \<Longrightarrow> one_line (JSON_stringify num v)"
  using JSON_stringify_one_line_aux(1) [of num v] by simp

lemma stringify_one_line: "one_line (stringify v)"
  unfolding stringify_def by (rule JSON_stringify_one_line) (rule show_int_one_line)

lemma between_frames_dispatched [simp]:
  "between_frames (p\<lparr>dispatched := ds\<rparr>) = between_frames p"
  by (simp add: between_frames_def)

lemma stream_parse:
  "\<forall>d. one_line (f d) \<Longrightarrow> between_frames p \<Longrightarrow>
    sse_feed (concat (spec_stream f c n a ins)) p =
      p\<lparr>dispatched := dispatched p @
          map (\<lambda>d. \<lparr>event_type = ''platformEvent'', event_data = f d, last_event_id = id_buf p\<rparr>)
            (spec_received c n a ins)\<rparr>"
proof (induction f c n a ins arbitrary: p rule: spec_stream.induct)
  case (5 f c n a d ins)
  show ?case
  proof (cases a)
    case True
    let ?q = "p\<lparr>dispatched := dispatched p @
        [\<lparr>event_type = ''platformEvent'', event_data = f d, last_event_id = id_buf p\<rparr>]\<rparr>"
    have ol: "LF \<notin> set (f d)" "CR \<notin> set (f d)"
      using "5.prems"(1) unfolding one_line_def by blast+
    have q: "sse_feed (event_line @ data_line (f d)) p = ?q"
      using sse_feed_frame [OF "5.prems"(2) ol] .
    have bq: "between_frames ?q" using "5.prems"(2) by simp
    show ?thesis
      using True "5.IH" [OF "5.prems"(1) bq] q
      by (simp add: frame_def sse_feed_append)
  next
    case False
    then show ?thesis using "5.IH" [OF "5.prems"] by simp
  qed
next
  case (4 f c n a r ins)
  then show ?case by (simp add: sse_feed_append sse_feed_ping)
qed simp_all

lemma between_frames_new: "between_frames new_parser"
  by (simp add: between_frames_def new_parser_def)

lemma browser_sees:
  assumes "\<forall>d. one_line (f d)" and "exited (main world e) = None"
  shows "dispatched (sse_feed (concat (written (process world e f ins) c)) new_parser) =
           map (\<lambda>d. \<lparr>event_type = ''platformEvent'', event_data = f d, last_event_id = []\<rparr>)
             (spec_received c 0 False ins)"
  using stream_parse [OF assms(1) between_frames_new, of c 0 False ins]
  by (simp add: written_process [OF assms(2)] new_parser_def)

lemma enumerate_map_snd:
  "enumerate n (map g xs) = map (\<lambda>(i, x). (i, g x)) (enumerate n xs)"
  by (simp add: enumerate_eq_zip zip_map2)

subsection \<open>The client\<close>

lemma take_keep: "take 200 (x # take 200 acc) = take 200 (x # acc)"
  by (simp add: take_Cons')

lemma client_events_run:
  "events c = take 200 acc \<Longrightarrow>
   events (client_run parse ins c) = take 200 (entries_of parse ins acc)"
proof (induction ins arbitrary: c acc)
  case Nil
  then show ?case by simp
next
  case (Cons i ins)
  show ?case
  proof (cases i)
    case (Platform_event d uuid)
    show ?thesis
    proof (cases "parse d")
      case None
      then have "events (client_step parse i c) = take 200 acc"
        using Platform_event Cons.prems by (simp add: on_platformEvent_def)
      from Cons.IH [OF this] show ?thesis using Platform_event None by simp
    next
      case (Some m)
      then have "events (client_step parse i c) = take 200 (new_entry uuid m # acc)"
        using Platform_event Cons.prems by (simp add: on_platformEvent_def keep_last_def take_keep)
      from Cons.IH [OF this] show ?thesis using Platform_event Some by simp
    qed
  next
    case Clear_click
    then have "events (client_step parse i c) = take 200 []" by simp
    from Cons.IH [OF this] show ?thesis using Clear_click by simp
  next
    case Source_open
    then have "events (client_step parse i c) = take 200 acc" using Cons.prems by simp
    from Cons.IH [OF this] show ?thesis using Source_open by simp
  next
    case Source_error
    then have "events (client_step parse i c) = take 200 acc" using Cons.prems by simp
    from Cons.IH [OF this] show ?thesis using Source_error by simp
  next
    case (Filter_change t)
    then have "events (client_step parse i c) = take 200 acc" using Cons.prems by simp
    from Cons.IH [OF this] show ?thesis using Filter_change by simp
  qed
qed

lemma stringify_total:
  "stringify (JObj [(''total'', JNum 42)]) = ''{'' @ [CHR 0x22] @ ''total'' @ [CHR 0x22] @ '':42}''"
  by (simp add: stringify_def quote_def escape_char_def show_int_def)

lemma sample_parse_total: "sample_parse total_42 = Some (JObj [(''payload'', JObj [(''total'', JNum 42)])])"
  by (simp add: sample_parse_def total_42_def stringify_def quote_def)

lemma sample_parse_bad: "sample_parse ''{bad'' = None"
  by (simp add: sample_parse_def total_42_def stringify_def quote_def)

section \<open>The claims\<close>

text \<open>
  C1. Whatever requests, closes, timer ticks and upstream callbacks the started server has
  handled (\<open>ins\<close>): what was written to a response \<open>c\<close> is, chunk for chunk, the frame of
  each event broadcast while \<open>c\<close> was in the registry (the line \<^verbatim>\<open>event: platformEvent\<close>
  and the line \<^verbatim>\<open>data: \<close> with the JSON text of that event, closed by an empty line), once
  each and in the order the events arrived, with the heartbeats of \<open>c\<close> between them; one
  more broadcast appends exactly the frame of its event to every response in the registry at
  that moment and nothing to any other; the response of a request that arrives after the
  broadcast of \<open>evt\<close> holds only what later inputs wrote, so no copy of \<open>evt\<close>; and a browser
  reading the response of \<open>c\<close> is handed exactly the events broadcast while \<open>c\<close> was in the
  registry, each once, in that order, each with the JSON text of its own event.
\<close>

theorem broadcast_fanout:
  assumes "exited (main world e) = None"
  shows "written (process world e f ins) c = spec_stream f c 0 False ins \<and>
         written (broadcastEvent f evt (process world e f ins)) c =
           written (process world e f ins) c @
             (if c \<in> set (sseClients (process world e f ins))
              then [''event: platformEvent\<newline>'', ''data: '' @ f evt @ ''\<newline>\<newline>'']
              else []) \<and>
         written (process world e f (ins @ Data evt # Get_events # later))
             (nextRes (process world e f ins)) =
           spec_stream f (nextRes (process world e f ins))
             (Suc (nextRes (process world e f ins))) True later \<and>
         ((\<forall>d. one_line (f d)) \<longrightarrow>
            dispatched (sse_feed (concat (written (process world e f ins) c)) new_parser) =
              map (\<lambda>d. \<lparr>event_type = ''platformEvent'', event_data = f d, last_event_id = []\<rparr>)
                (spec_received c 0 False ins))"
proof -
  let ?s = "process world e f ins"
  let ?n = "nextRes ?s"
  have w: "wf ?s" by (rule wf_process)
  have 1: "written ?s c = spec_stream f c 0 False ins"
    using assms by (rule written_process)
  have 2: "written (broadcastEvent f evt ?s) c =
      written ?s c @
        (if c \<in> set (sseClients ?s)
         then [''event: platformEvent\<newline>'', ''data: '' @ f evt @ ''\<newline>\<newline>''] else [])"
    using w by (simp add: broadcastEvent_eq wf_def frame_text)
  let ?t = "run f e [Data evt, Get_events] ?s"
  have wt: "wf ?t" using w by (rule wf_run)
  have out: "?n \<notin> set (sseClients ?s)" "written ?s ?n = []"
    using w by (auto simp: wf_def)
  have t: "written ?t ?n = []" "nextRes ?t = Suc ?n" "?n \<in> set (sseClients ?t)"
    using out w
    by (simp_all add: get_events_fields on_data_fields on_data_written set_add_def wf_def)
  have "process world e f (ins @ Data evt # Get_events # later) = run f e later ?t"
    using process_append [OF assms, of f ins "Data evt # Get_events # later"] by simp
  then have 3: "written (process world e f (ins @ Data evt # Get_events # later)) ?n =
      spec_stream f ?n (Suc ?n) True later"
    using written_run [OF wt, of f e later ?n] t by simp
  have 4: "(\<forall>d. one_line (f d)) \<longrightarrow>
      dispatched (sse_feed (concat (written ?s c)) new_parser) =
        map (\<lambda>d. \<lparr>event_type = ''platformEvent'', event_data = f d, last_event_id = []\<rparr>)
          (spec_received c 0 False ins)"
    using browser_sees [OF _ assms, of f ins c] by blast
  from 1 2 3 4 show ?thesis by blast
qed

theorem broadcast_fanout_witness:
  "exited (main all_return orders_env) = None \<and>
   written (orders_server [Get_events, Data (order 1), Get_events, Data (order 2)]) 0 =
     [''event: platformEvent\<newline>'', ''data: '' @ stringify (order 1) @ ''\<newline>\<newline>'',
      ''event: platformEvent\<newline>'', ''data: '' @ stringify (order 2) @ ''\<newline>\<newline>''] \<and>
   written (orders_server [Get_events, Data (order 1), Get_events, Data (order 2)]) 1 =
     [''event: platformEvent\<newline>'', ''data: '' @ stringify (order 2) @ ''\<newline>\<newline>''] \<and>
   written (orders_server ([Get_events] @ Data (order 1) # Get_events # [])) 1 = [] \<and>
   (\<forall>d. one_line (stringify d)) \<and>
   dispatched (sse_feed
       (concat (written (orders_server [Get_events, Data (order 1), Get_events, Data (order 2)]) 0))
       new_parser) =
     [\<lparr>event_type = ''platformEvent'', event_data = stringify (order 1), last_event_id = []\<rparr>,
      \<lparr>event_type = ''platformEvent'', event_data = stringify (order 2), last_event_id = []\<rparr>] \<and>
   dispatched (sse_feed
       (concat (written (orders_server [Get_events, Data (order 1), Get_events, Data (order 2)]) 1))
       new_parser) =
     [\<lparr>event_type = ''platformEvent'', event_data = stringify (order 2), last_event_id = []\<rparr>]"
proof -
  let ?ins = "[Get_events, Data (order 1), Get_events, Data (order 2)]"
  note a0 = broadcast_fanout [OF orders_started, where f = stringify and ins = ?ins and c = 0]
  note a1 = broadcast_fanout [OF orders_started, where f = stringify and ins = ?ins and c = 1]
  note b = broadcast_fanout [OF orders_started, where f = stringify and ins = "[Get_events]"
      and evt = "order 1" and later = "[]"]
  have ol: "\<forall>d. one_line (stringify d)" by (simp add: stringify_one_line)
  have 1: "written (orders_server ?ins) 0 =
     [''event: platformEvent\<newline>'', ''data: '' @ stringify (order 1) @ ''\<newline>\<newline>'',
      ''event: platformEvent\<newline>'', ''data: '' @ stringify (order 2) @ ''\<newline>\<newline>'']"
    using a0 by (simp add: orders_server_def spec_stream.simps del: spec_stream_frames)
  have 2: "written (orders_server ?ins) 1 =
     [''event: platformEvent\<newline>'', ''data: '' @ stringify (order 2) @ ''\<newline>\<newline>'']"
    using a1 by (simp add: orders_server_def spec_stream.simps del: spec_stream_frames)
  have n: "nextRes (orders_server [Get_events]) = 1"
    using orders_started
    by (simp add: orders_server_def process_def Let_def get_events_fields main_registry)
  have 3: "written (orders_server ([Get_events] @ Data (order 1) # Get_events # [])) 1 = []"
    using b n by (simp add: orders_server_def)
  have 4: "dispatched (sse_feed (concat (written (orders_server ?ins) 0)) new_parser) =
     [\<lparr>event_type = ''platformEvent'', event_data = stringify (order 1), last_event_id = []\<rparr>,
      \<lparr>event_type = ''platformEvent'', event_data = stringify (order 2), last_event_id = []\<rparr>]"
  proof -
    have "dispatched (sse_feed (concat (written (orders_server ?ins) 0)) new_parser) =
        map (\<lambda>d. \<lparr>event_type = ''platformEvent'', event_data = stringify d, last_event_id = []\<rparr>)
          (spec_received 0 0 False ?ins)"
      using a0 ol unfolding orders_server_def by blast
    also have "\<dots> =
     [\<lparr>event_type = ''platformEvent'', event_data = stringify (order 1), last_event_id = []\<rparr>,
      \<lparr>event_type = ''platformEvent'', event_data = stringify (order 2), last_event_id = []\<rparr>]"
      by simp
    finally show ?thesis .
  qed
  have 5: "dispatched (sse_feed (concat (written (orders_server ?ins) 1)) new_parser) =
     [\<lparr>event_type = ''platformEvent'', event_data = stringify (order 2), last_event_id = []\<rparr>]"
  proof -
    have "dispatched (sse_feed (concat (written (orders_server ?ins) 1)) new_parser) =
        map (\<lambda>d. \<lparr>event_type = ''platformEvent'', event_data = stringify d, last_event_id = []\<rparr>)
          (spec_received 1 0 False ?ins)"
      using a1 ol unfolding orders_server_def by blast
    also have "\<dots> =
     [\<lparr>event_type = ''platformEvent'', event_data = stringify (order 2), last_event_id = []\<rparr>]"
      by simp
    finally show ?thesis .
  qed
  from orders_started 1 2 3 ol 4 5 show ?thesis by (simp only: simp_thms)
qed

text \<open>
  C2, as amended. The server has no outbound queue capacity and no eviction. A broadcast
  leaves the registry and the timers as they are; a response leaves the registry only in the
  close handler of its own request; and however many events are broadcast in a row, each
  registered response stays registered and has every frame appended to what was already
  written to it. The claim as stated fails: after three broadcasts to a consumer that takes
  nothing, the consumer is still registered, its timer runs and all six chunks are held.
\<close>

theorem broadcast_never_evicts:
  "sseClients (broadcastEvent f evt s) = sseClients s \<and>
   pings (broadcastEvent f evt s) = pings s \<and>
   (\<forall>c \<in> set (sseClients s). c \<notin> set (sseClients (step f cfg i s)) \<longrightarrow> i = Req_close c) \<and>
   (\<forall>c \<in> set (sseClients (process world e f ins)).
      c \<in> set (sseClients (run f cfg (map Data evts) (process world e f ins))) \<and>
      written (run f cfg (map Data evts) (process world e f ins)) c =
        written (process world e f ins) c @ concat (map (frame f) evts))"
proof -
  have "\<forall>c \<in> set (sseClients s). c \<notin> set (sseClients (step f cfg i s)) \<longrightarrow> i = Req_close c"
    using step_removes by blast
  moreover have "\<forall>c \<in> set (sseClients (process world e f ins)).
      c \<in> set (sseClients (run f cfg (map Data evts) (process world e f ins))) \<and>
      written (run f cfg (map Data evts) (process world e f ins)) c =
        written (process world e f ins) c @ concat (map (frame f) evts)"
    using written_run [OF wf_process, of f cfg "map Data evts" world e f ins]
    by (simp add: run_data_registry spec_stream_data)
  ultimately show ?thesis by simp
qed

theorem broadcast_never_evicts_witness:
  "sseClients (orders_server [Get_events]) = [0] \<and>
   sseClients (run stringify orders_env (map Data [order 1, order 2, order 3]) (orders_server [Get_events])) = [0] \<and>
   written (run stringify orders_env (map Data [order 1, order 2, order 3]) (orders_server [Get_events])) 0 =
     frame stringify (order 1) @ frame stringify (order 2) @ frame stringify (order 3)"
  using broadcast_never_evicts [where world = all_return and e = orders_env and f = stringify
      and ins = "[Get_events]" and cfg = orders_env and evts = "[order 1, order 2, order 3]"]
    written_process [OF orders_started, of stringify "[Get_events]" 0]
    orders_started
  by (simp add: orders_server_def process_def Let_def get_events_fields on_data_fields
      main_registry set_add_def)

theorem no_eviction_counterexample:
  "sseClients (orders_server [Get_events, Data (order 1), Data (order 2), Data (order 3)]) = [0] \<and>
   pings (orders_server [Get_events, Data (order 1), Data (order 2), Data (order 3)]) 0 = Some 25000 \<and>
   length (written (orders_server [Get_events, Data (order 1), Data (order 2), Data (order 3)]) 0) = 6"
  using written_process [OF orders_started, of stringify
      "[Get_events, Data (order 1), Data (order 2), Data (order 3)]" 0] orders_started
  by (simp add: orders_server_def process_def Let_def get_events_fields on_data_fields
      main_registry set_add_def frame_def ping_period_def)

text \<open>
  C4, as amended. The process exits exactly when a credential is missing or empty, or a
  call of start-up on a collaborator (login, client creation, subscribe, registration of the
  failure handler, listen) throws; the exit code is 1, the listener was not started, and no
  input is ever handled. No handler of the running server exits the process. The claim as
  stated fails: with all credentials present a rejected login exits the process.
\<close>

theorem exit_only_during_startup:
  "(exited (main world e) \<noteq> None) =
     (creds_missing e \<or> (\<exists>c \<in> set (startup_calls e). world c \<noteq> None)) \<and>
   (exited (main world e) \<noteq> None \<longrightarrow>
      exited (main world e) = Some 1 \<and>
      Listen (port_of e) \<notin> set (calls (main world e)) \<and>
      process world e f ins = main world e) \<and>
   exited (run f cfg ins s) = exited s"
proof -
  have 1: "(exited (main world e) \<noteq> None) =
     (creds_missing e \<or> (\<exists>c \<in> set (startup_calls e). world c \<noteq> None))"
    by (simp add: main_exited list_ex_iff)
  have 2: "exited (main world e) \<noteq> None \<longrightarrow> exited (main world e) = Some 1"
    by (simp add: main_exited)
  have 3: "exited (main world e) \<noteq> None \<longrightarrow> Listen (port_of e) \<notin> set (calls (main world e))"
    using listen_after_all [of e world] by (auto simp: main_exited main_calls)
  have 4: "exited (main world e) \<noteq> None \<longrightarrow> process world e f ins = main world e"
    by (simp add: process_def Let_def)
  from 1 2 3 4 show ?thesis by (simp add: run_exited)
qed

theorem exit_only_during_startup_witness:
  "exited (main login_rejected orders_env) \<noteq> None \<and>
   exited (main login_rejected orders_env) = Some 1 \<and>
   calls (main login_rejected orders_env) = [] \<and>
   process login_rejected orders_env stringify [Get_events, Data (order 1)] =
     main login_rejected orders_env \<and>
   exited (orders_server [Get_events, Transport_failure (JStr ''ECONNRESET''),
      Subscribe_error (JStr ''403''), Req_close 0]) = None"
  using exit_only_during_startup [where world = login_rejected and e = orders_env
      and f = stringify and ins = "[Get_events, Data (order 1)]"]
    exit_only_during_startup [where f = stringify and cfg = orders_env
      and ins = "[Get_events, Transport_failure (JStr ''ECONNRESET''),
        Subscribe_error (JStr ''403''), Req_close 0]" and s = "main all_return orders_env"]
    orders_started
  by (simp add: orders_server_def process_def Let_def main_calls main_exited creds_missing_def
      falsy_def startup_calls_def orders_env_def)

theorem login_failure_exits_counterexample:
  "\<not> creds_missing orders_env \<and> exited (main login_rejected orders_env) = Some 1"
  by (simp add: main_exited creds_missing_def falsy_def startup_calls_def orders_env_def)

text \<open>
  C5, as amended. An event fails to reach a consumer only when the consumer is gone: a
  consumer \<open>d\<close> whose request closed receives nothing of a broadcast, and it alone; every
  other consumer of the registry receives the frame of the event (the line
  \<^verbatim>\<open>event: platformEvent\<close> and the line \<^verbatim>\<open>data: \<close> with its JSON text, closed by an empty
  line), the registry holds the others unchanged, and neither the calls on the upstream nor
  the exit status change. The source has no queue limit and does not look at the result of
  a write: for a consumer still in the registry the event is never dropped, the frame is
  appended to whatever is held for it (\<open>q\<close>, however long), and what is held for one
  consumer changes nothing for another. The claim as stated fails: a consumer that has
  taken none of three events is not passed over by the fourth broadcast, the fourth frame
  is written to it as well.
\<close>

theorem broadcast_isolation:
  "let s = process world e f ins; s' = broadcastEvent f evt (on_close d s) in
     written s' d = written s d \<and>
     (\<forall>c \<in> set (sseClients s). c \<noteq> d \<longrightarrow>
        written s' c =
          written s c @ [''event: platformEvent\<newline>'', ''data: '' @ f evt @ ''\<newline>\<newline>'']) \<and>
     sseClients s' = removeAll d (sseClients s) \<and>
     calls s' = calls s \<and> exited s' = exited s \<and>
     (\<forall>c \<in> set (sseClients s).
        written (broadcastEvent f evt (s\<lparr>written := (written s)(c := q)\<rparr>)) c =
          q @ [''event: platformEvent\<newline>'', ''data: '' @ f evt @ ''\<newline>\<newline>'']) \<and>
     (\<forall>c \<in> set (sseClients s). c \<noteq> d \<longrightarrow>
        written (broadcastEvent f evt (s\<lparr>written := (written s)(d := q)\<rparr>)) c =
          written s c @ [''event: platformEvent\<newline>'', ''data: '' @ f evt @ ''\<newline>\<newline>''])"
proof -
  let ?s = "process world e f ins"
  have w: "wf (on_close d ?s)"
    using wf_step [OF wf_process, of f e "Req_close d" world e f ins] by simp
  then have d: "distinct (sseClients (on_close d ?s))" by (simp add: wf_def)
  have d0: "\<And>x. distinct (sseClients (?s\<lparr>written := (written ?s)(x := q)\<rparr>))"
    using wf_process [of world e f ins] by (simp add: wf_def)
  show ?thesis
    by (simp add: Let_def broadcastEvent_eq [OF d] broadcastEvent_eq [OF d0] on_close_fields
        frame_text)
qed

theorem broadcast_isolation_witness:
  "sseClients (orders_server [Get_events, Get_events, Data (order 1)]) = [0, 1] \<and>
   written (broadcastEvent stringify (order 2)
       (on_close 0 (orders_server [Get_events, Get_events, Data (order 1)]))) 0 =
     [''event: platformEvent\<newline>'', ''data: '' @ stringify (order 1) @ ''\<newline>\<newline>''] \<and>
   written (broadcastEvent stringify (order 2)
       (on_close 0 (orders_server [Get_events, Get_events, Data (order 1)]))) 1 =
     [''event: platformEvent\<newline>'', ''data: '' @ stringify (order 1) @ ''\<newline>\<newline>'',
      ''event: platformEvent\<newline>'', ''data: '' @ stringify (order 2) @ ''\<newline>\<newline>''] \<and>
   sseClients (broadcastEvent stringify (order 2)
       (on_close 0 (orders_server [Get_events, Get_events, Data (order 1)]))) = [1] \<and>
   written (broadcastEvent stringify (order 2)
       ((orders_server [Get_events, Get_events, Data (order 1)])
          \<lparr>written := (written (orders_server [Get_events, Get_events, Data (order 1)]))
             (0 := replicate 1000 '':ping\<newline>\<newline>'')\<rparr>)) 0 =
     replicate 1000 '':ping\<newline>\<newline>'' @
     [''event: platformEvent\<newline>'', ''data: '' @ stringify (order 2) @ ''\<newline>\<newline>''] \<and>
   written (broadcastEvent stringify (order 2)
       ((orders_server [Get_events, Get_events, Data (order 1)])
          \<lparr>written := (written (orders_server [Get_events, Get_events, Data (order 1)]))
             (0 := replicate 1000 '':ping\<newline>\<newline>'')\<rparr>)) 1 =
     [''event: platformEvent\<newline>'', ''data: '' @ stringify (order 1) @ ''\<newline>\<newline>'',
      ''event: platformEvent\<newline>'', ''data: '' @ stringify (order 2) @ ''\<newline>\<newline>'']"
proof -
  let ?ins = "[Get_events, Get_events, Data (order 1)]"
  let ?s = "orders_server ?ins"
  let ?q = "replicate 1000 '':ping\<newline>\<newline>''"
  note a = broadcast_isolation [where world = all_return and e = orders_env and f = stringify
      and ins = ?ins and evt = "order 2" and d = 0 and q = ?q, unfolded Let_def,
      folded orders_server_def]
  have r: "sseClients ?s = [0, 1]"
    using orders_started
    by (simp add: orders_server_def process_def Let_def get_events_fields on_data_fields
        main_registry set_add_def)
  have w0: "written ?s 0 =
      [''event: platformEvent\<newline>'', ''data: '' @ stringify (order 1) @ ''\<newline>\<newline>'']"
    using written_process [OF orders_started, of stringify ?ins 0]
    by (simp add: orders_server_def frame_text)
  have w1: "written ?s 1 =
      [''event: platformEvent\<newline>'', ''data: '' @ stringify (order 1) @ ''\<newline>\<newline>'']"
    using written_process [OF orders_started, of stringify ?ins 1]
    by (simp add: orders_server_def frame_text)
  from a r w0 w1 show ?thesis by simp
qed

theorem backlog_not_dropped_counterexample:
  "sseClients (orders_server [Get_events, Data (order 1), Data (order 2), Data (order 3)]) = [0] \<and>
   length (written (orders_server [Get_events, Data (order 1), Data (order 2), Data (order 3)]) 0) = 6 \<and>
   written (broadcastEvent stringify (order 4)
       (orders_server [Get_events, Data (order 1), Data (order 2), Data (order 3)])) 0 =
     written (orders_server [Get_events, Data (order 1), Data (order 2), Data (order 3)]) 0 @
     [''event: platformEvent\<newline>'', ''data: '' @ stringify (order 4) @ ''\<newline>\<newline>'']"
proof -
  let ?ins = "[Get_events, Data (order 1), Data (order 2), Data (order 3)]"
  let ?s = "orders_server ?ins"
  have r: "sseClients ?s = [0]"
    using orders_started
    by (simp add: orders_server_def process_def Let_def get_events_fields on_data_fields
        main_registry set_add_def)
  have l: "length (written ?s 0) = 6"
    using written_process [OF orders_started, of stringify ?ins 0]
    by (simp add: orders_server_def frame_text)
  have "distinct (sseClients ?s)" using r by simp
  then have "written (broadcastEvent stringify (order 4) ?s) 0 =
      written ?s 0 @ [''event: platformEvent\<newline>'', ''data: '' @ stringify (order 4) @ ''\<newline>\<newline>'']"
    using r by (simp add: broadcastEvent_eq frame_text)
  with r l show ?thesis by simp
qed

text \<open>
  C6, as amended. Each attached consumer has a timer of period 25000 ms; every time it fires
  it writes the comment frame \<^verbatim>\<open>:ping\<close> to that consumer alone, whether or not anything was
  written since the last heartbeat; a closed consumer's timer is cleared and writes nothing.
  An event-stream parser between two frames is left unchanged by the frame, and the calls
  of the client's listener for a consumer's whole stream are those of the events broadcast
  while it was attached, whatever heartbeats lie between them. The claim as stated fails:
  the heartbeat is written right after an event was written.
\<close>

theorem heartbeat_every_tick:
  "ping_frame = '':ping\<newline>\<newline>'' \<and>
   pings (get_events s) (nextRes s) = Some 25000 \<and>
   (pings s r \<noteq> None \<longrightarrow>
      written (ping_tick r s) = (written s)(r := written s r @ [ping_frame])) \<and>
   (pings s r = None \<longrightarrow> ping_tick r s = s) \<and>
   pings (on_close r s) r = None \<and>
   (between_frames p \<longrightarrow> sse_feed ping_frame p = p) \<and>
   ((\<forall>d. one_line (f d)) \<and> exited (main world e) = None \<longrightarrow>
      listener_calls uuid
          (dispatched (sse_feed (concat (written (process world e f ins) c)) new_parser)) =
        map (\<lambda>(i, d). Platform_event (f d) (uuid i)) (enumerate 0 (spec_received c 0 False ins)))"
proof -
  have 1: "between_frames p \<longrightarrow> sse_feed ping_frame p = p"
    using sse_feed_ping [of p] by simp
  have 2: "(\<forall>d. one_line (f d)) \<and> exited (main world e) = None \<longrightarrow>
      listener_calls uuid
          (dispatched (sse_feed (concat (written (process world e f ins) c)) new_parser)) =
        map (\<lambda>(i, d). Platform_event (f d) (uuid i)) (enumerate 0 (spec_received c 0 False ins))"
  proof (intro impI, elim conjE)
    assume a: "\<forall>d. one_line (f d)" "exited (main world e) = None"
    show "listener_calls uuid
          (dispatched (sse_feed (concat (written (process world e f ins) c)) new_parser)) =
        map (\<lambda>(i, d). Platform_event (f d) (uuid i)) (enumerate 0 (spec_received c 0 False ins))"
      unfolding browser_sees [OF a] listener_calls_def
      by (simp add: filter_map comp_def enumerate_map_snd case_prod_unfold)
  qed
  have 3: "pings (get_events s) (nextRes s) = Some 25000"
    by (simp add: get_events_fields ping_period_def)
  have 4: "pings s r \<noteq> None \<longrightarrow>
      written (ping_tick r s) = (written s)(r := written s r @ [ping_frame])"
    by (simp add: ping_tick_fields)
  have 5: "pings s r = None \<longrightarrow> ping_tick r s = s"
    by (simp add: ping_tick_def)
  have 6: "pings (on_close r s) r = None"
    by (simp add: on_close_fields)
  have 7: "ping_frame = '':ping\<newline>\<newline>''"
    by (simp add: ping_frame_def)
  from 1 2 3 4 5 6 7 show ?thesis by blast
qed

theorem heartbeat_every_tick_witness:
  "pings (orders_server [Get_events, Data (order 1)]) 0 \<noteq> None \<and>
   written (ping_tick 0 (orders_server [Get_events, Data (order 1)])) 0 =
     frame stringify (order 1) @ [ping_frame] \<and>
   pings (on_close 0 (orders_server [Get_events, Data (order 1)])) 0 = None \<and>
   ping_tick 0 (on_close 0 (orders_server [Get_events, Data (order 1)])) =
     on_close 0 (orders_server [Get_events, Data (order 1)]) \<and>
   between_frames new_parser \<and>
   sse_feed ping_frame new_parser = new_parser \<and>
   (\<forall>d. one_line (stringify d)) \<and>
   exited (main all_return orders_env) = None \<and>
   listener_calls (\<lambda>i. ''uuid'')
     (dispatched (sse_feed
        (concat (written (orders_server [Get_events, Ping_tick 0, Data (order 1), Ping_tick 0]) 0))
        new_parser)) =
     [Platform_event (stringify (order 1)) ''uuid'']"
proof -
  let ?s = "orders_server [Get_events, Data (order 1)]"
  note a = heartbeat_every_tick [where s = ?s and r = 0
      and p = new_parser and f = stringify and world = all_return and e = orders_env
      and uuid = "\<lambda>i. ''uuid''" and ins = "[Get_events, Ping_tick 0, Data (order 1), Ping_tick 0]"
      and c = 0]
  note b = heartbeat_every_tick [where s = "on_close 0 ?s" and r = 0]
  have p: "pings ?s 0 \<noteq> None"
    by (simp add: orders_server_def process_def Let_def get_events_fields on_data_fields
        main_registry orders_started)
  have w: "written ?s 0 = frame stringify (order 1)"
    using written_process [OF orders_started, of stringify "[Get_events, Data (order 1)]" 0]
    by (simp add: orders_server_def)
  have 1: "written (ping_tick 0 ?s) 0 = frame stringify (order 1) @ [ping_frame]"
    using a p w by simp
  have 2: "pings (on_close 0 ?s) 0 = None" using a by blast
  have 3: "ping_tick 0 (on_close 0 ?s) = on_close 0 ?s" using b 2 by blast
  have 4: "sse_feed ping_frame new_parser = new_parser"
    using a between_frames_new by blast
  have 5: "\<forall>d. one_line (stringify d)" by (simp add: stringify_one_line)
  have 6: "listener_calls (\<lambda>i. ''uuid'')
     (dispatched (sse_feed
        (concat (written (orders_server [Get_events, Ping_tick 0, Data (order 1), Ping_tick 0]) 0))
        new_parser)) =
     map (\<lambda>(i, d). Platform_event (stringify d) ''uuid'')
       (enumerate 0 (spec_received 0 0 False [Get_events, Ping_tick 0, Data (order 1), Ping_tick 0]))"
    using a 5 orders_started unfolding orders_server_def by blast
  have 7: "map (\<lambda>(i, d). Platform_event (stringify d) ''uuid'')
       (enumerate 0 (spec_received 0 0 False [Get_events, Ping_tick 0, Data (order 1), Ping_tick 0])) =
     [Platform_event (stringify (order 1)) ''uuid'']"
    by simp
  show ?thesis
    using p 1 2 3 4 5 6 7 between_frames_new orders_started by (simp only: simp_thms)
qed

theorem heartbeat_while_busy_counterexample:
  "written (orders_server [Get_events, Data (order 1), Ping_tick 0, Data (order 2), Ping_tick 0]) 0 =
     frame stringify (order 1) @ [ping_frame] @ frame stringify (order 2) @ [ping_frame]"
  using written_process [OF orders_started, of stringify
      "[Get_events, Data (order 1), Ping_tick 0, Data (order 2), Ping_tick 0]" 0]
  by (simp add: orders_server_def)

text \<open>
  C7. The upstream callback writes to every registered consumer the two chunks
  \<^verbatim>\<open>event: platformEvent\<close> and \<^verbatim>\<open>data: \<close> followed by the JSON text of the message it was
  handed and an empty line; the same message handed over twice is written twice (nothing is
  deduplicated or rewritten); and where the JSON text has no line end in it (as the text of
  \<^verbatim>\<open>JSON.stringify\<close> has), an event-stream parser reads the frame as one event named
  \<^verbatim>\<open>platformEvent\<close> whose data is that text.
\<close>

theorem frame_is_named_json:
  "(\<forall>c \<in> set (sseClients (process world e f ins)).
      written (on_data f evt (process world e f ins)) c =
        written (process world e f ins) c @
          [''event: platformEvent\<newline>'', ''data: '' @ f evt @ ''\<newline>\<newline>''] \<and>
      written (on_data f evt (on_data f evt (process world e f ins))) c =
        written (process world e f ins) c @ frame f evt @ frame f evt) \<and>
   (one_line (f evt) \<and> between_frames p \<longrightarrow>
      sse_feed (concat (frame f evt)) p =
        p\<lparr>dispatched := dispatched p @
            [\<lparr>event_type = ''platformEvent'', event_data = f evt, last_event_id = id_buf p\<rparr>]\<rparr>)"
proof -
  let ?s = "process world e f ins"
  have d: "distinct (sseClients ?s)" using wf_process [of world e f ins] by (simp add: wf_def)
  then have d': "distinct (sseClients (on_data f evt ?s))" by (simp add: on_data_fields)
  have 1: "\<forall>c \<in> set (sseClients ?s).
      written (on_data f evt ?s) c =
        written ?s c @ [''event: platformEvent\<newline>'', ''data: '' @ f evt @ ''\<newline>\<newline>''] \<and>
      written (on_data f evt (on_data f evt ?s)) c = written ?s c @ frame f evt @ frame f evt"
    by (simp add: on_data_written [OF d] on_data_written [OF d'] on_data_fields frame_def
        event_line_def data_line_def)
  have 2: "one_line (f evt) \<and> between_frames p \<longrightarrow>
      sse_feed (concat (frame f evt)) p =
        p\<lparr>dispatched := dispatched p @
            [\<lparr>event_type = ''platformEvent'', event_data = f evt, last_event_id = id_buf p\<rparr>]\<rparr>"
    using sse_feed_frame [of p "f evt"] by (simp add: frame_def one_line_def)
  from 1 2 show ?thesis by blast
qed

theorem frame_is_named_json_witness:
  "sseClients (orders_server [Get_events]) = [0] \<and>
   written (on_data stringify (order 1) (orders_server [Get_events])) 0 =
     [''event: platformEvent\<newline>'', ''data: '' @ stringify (order 1) @ ''\<newline>\<newline>''] \<and>
   written (on_data stringify (order 1) (on_data stringify (order 1) (orders_server [Get_events]))) 0 =
     frame stringify (order 1) @ frame stringify (order 1) \<and>
   stringify (JObj [(''total'', JNum 42)]) =
     ''{'' @ [CHR 0x22] @ ''total'' @ [CHR 0x22] @ '':42}'' \<and>
   one_line (stringify (order 1)) \<and> between_frames new_parser \<and>
   dispatched (sse_feed (concat (frame stringify (order 1))) new_parser) =
     [\<lparr>event_type = ''platformEvent'', event_data = stringify (order 1), last_event_id = []\<rparr>]"
  using frame_is_named_json [where world = all_return and e = orders_env and f = stringify
      and ins = "[Get_events]" and evt = "order 1" and p = new_parser]
    written_process [OF orders_started, of stringify "[Get_events]" 0]
    orders_started stringify_one_line [of "order 1"] between_frames_new stringify_total
  by (simp add: orders_server_def process_def Let_def get_events_fields main_registry set_add_def
      new_parser_def)



text \<open>
  C9. After any sequence of inputs to the mounted component the list \<open>events\<close> has at most
  200 elements: it is the first 200 of the entries received since the last Clear, newest
  first; a frame that parses puts its entry in front and cuts the list to 200.
\<close>

theorem events_bounded_newest_first:
  "length (events (client_run parse ins initial_client)) \<le> 200 \<and>
   events (client_run parse ins initial_client) = take 200 (entries_of parse ins []) \<and>
   (parse d = Some m \<longrightarrow>
      events (on_platformEvent parse uuid d c) = take 200 (new_entry uuid m # events c))"
proof -
  have "events (initial_client :: 'a client) = take 200 []"
    by (simp add: initial_client_def)
  from client_events_run [OF this]
  have 1: "events (client_run parse ins initial_client) = take 200 (entries_of parse ins [])" .
  then have 2: "length (events (client_run parse ins initial_client)) \<le> 200" by simp
  have 3: "parse d = Some m \<longrightarrow>
      events (on_platformEvent parse uuid d c) = take 200 (new_entry uuid m # events c)"
    by (simp add: on_platformEvent_def keep_last_def)
  from 1 2 3 show ?thesis by blast
qed

theorem events_bounded_newest_first_witness:
  "sample_parse total_42 = Some (JObj [(''payload'', JObj [(''total'', JNum 42)])]) \<and>
   events (on_platformEvent sample_parse ''u2'' total_42
      (client_run sample_parse [Platform_event ''null'' ''u1''] initial_client)) =
     [new_entry ''u2'' (JObj [(''payload'', JObj [(''total'', JNum 42)])]), new_entry ''u1'' JNull] \<and>
   payload (new_entry ''u2'' (JObj [(''payload'', JObj [(''total'', JNum (42 :: int))])])) =
     JObj [(''total'', JNum 42)] \<and>
   id_field (new_entry ''u2'' (JObj [(''payload'', JObj [(''total'', JNum (42 :: int))])])) = JStr ''u2'' \<and>
   length (events (client_run sample_parse
      (replicate 300 (Platform_event ''null'' ''u1'')) initial_client)) \<le> 200"
proof -
  note a = events_bounded_newest_first [where parse = sample_parse
      and ins = "[Platform_event ''null'' ''u1'']" and d = total_42
      and m = "JObj [(''payload'', JObj [(''total'', JNum 42)])]" and uuid = "''u2''"
      and c = "client_run sample_parse [Platform_event ''null'' ''u1''] initial_client"]
  note b = events_bounded_newest_first [where parse = sample_parse
      and ins = "replicate 300 (Platform_event ''null'' ''u1'')"]
  have n: "sample_parse ''null'' = Some JNull" by (simp add: sample_parse_def)
  have 1: "events (client_run sample_parse [Platform_event ''null'' ''u1''] initial_client) =
      [new_entry ''u1'' JNull]"
    using a n by simp
  have 2: "events (on_platformEvent sample_parse ''u2'' total_42
      (client_run sample_parse [Platform_event ''null'' ''u1''] initial_client)) =
     [new_entry ''u2'' (JObj [(''payload'', JObj [(''total'', JNum 42)])]), new_entry ''u1'' JNull]"
    using a sample_parse_total 1 by simp
  have 3: "payload (new_entry ''u2'' (JObj [(''payload'', JObj [(''total'', JNum (42 :: int))])])) =
     JObj [(''total'', JNum 42)]"
    by (simp add: new_entry_def)
  have 4: "id_field (new_entry ''u2'' (JObj [(''payload'', JObj [(''total'', JNum (42 :: int))])])) = JStr ''u2''"
    by (simp add: new_entry_def)
  from b sample_parse_total 2 3 4 show ?thesis by blast
qed

text \<open>
  C10. A frame whose data \<^verbatim>\<open>JSON.parse\<close> rejects changes nothing but the console: the
  listener prints one line, and \<open>events\<close> and the rest of the state are as before.
\<close>

theorem bad_json_leaves_events:
  "parse d = None \<Longrightarrow>
   events (on_platformEvent parse uuid d c) = events c \<and>
   on_platformEvent parse uuid d c = c\<lparr>client_console := client_console c @ [''Bad event payload'']\<rparr> \<and>
   events (client_run parse (ins @ [Platform_event d uuid]) initial_client) =
     events (client_run parse ins initial_client)"
proof -
  assume n: "parse d = None"
  have run_app: "\<And>xs ys c. client_run parse (xs @ ys) c = client_run parse ys (client_run parse xs c)"
  proof -
    fix xs ys c
    show "client_run parse (xs @ ys) c = client_run parse ys (client_run parse xs c)"
      by (induction xs arbitrary: c) simp_all
  qed
  show ?thesis using n by (simp add: on_platformEvent_def run_app)
qed

theorem bad_json_leaves_events_witness:
  "sample_parse ''{bad'' = None \<and>
   events (on_platformEvent sample_parse ''u3'' ''{bad''
      (client_run sample_parse [Platform_event total_42 ''u2''] initial_client)) =
     [new_entry ''u2'' (JObj [(''payload'', JObj [(''total'', JNum 42)])])] \<and>
   client_console (on_platformEvent sample_parse ''u3'' ''{bad''
      (client_run sample_parse [Platform_event total_42 ''u2''] initial_client)) =
     [''Bad event payload'']"
proof -
  note a = bad_json_leaves_events [where parse = sample_parse and d = "''{bad''"
      and uuid = "''u3''"
      and c = "client_run sample_parse [Platform_event total_42 ''u2''] initial_client",
      OF sample_parse_bad]
  have 1: "events (client_run sample_parse [Platform_event total_42 ''u2''] initial_client) =
      [new_entry ''u2'' (JObj [(''payload'', JObj [(''total'', JNum 42)])])]"
    by (simp add: on_platformEvent_def sample_parse_total keep_last_def initial_client_def)
  have 2: "client_console (client_run sample_parse [Platform_event total_42 ''u2''] initial_client) = []"
    by (simp add: on_platformEvent_def sample_parse_total keep_last_def initial_client_def)
  have 3: "client_console (on_platformEvent sample_parse ''u3'' ''{bad''
      (client_run sample_parse [Platform_event total_42 ''u2''] initial_client)) =
     [''Bad event payload'']"
    using a 2 by simp
  from a 1 3 sample_parse_bad show ?thesis by simp
qed

end
